theory Spec2Isabelle
  imports Main "HOL-Library.Sublist" "HOL-Library.Word"
begin

section \<open>Data model of \<^verbatim>\<open>src/index.ts\<close>\<close>

text \<open>
  Raw store values are byte strings; keys, names, URLs and hash-function names are
  JavaScript strings. A JavaScript object is an association list in property
  enumeration order (insertion order; schema names are not array-index strings).
\<close>

type_synonym bytes = "8 word list"

type_synonym 'v jsobject = "(string \<times> 'v) list"

record ERC725JSONSchema =
  name :: string
  key :: string
  keyType :: string
  valueType :: string
  valueContent :: string

text \<open>
  What a store read returns for one key: \<^verbatim>\<open>undefined\<close>, \<^verbatim>\<open>null\<close>, a hex string
  of bytes, or (in \<^verbatim>\<open>tmpData\<close> of \<^verbatim>\<open>getDataMultiple\<close>) an array of
  \<^verbatim>\<open>{key, value}\<close> pairs.
\<close>

datatype rawvalue = Undefined | Null | Hex bytes | Entries "(string \<times> rawvalue) list"

type_synonym KeyValuePair = "string \<times> rawvalue"

datatype json = JNull | JBool bool | JNum int | JStr string | JArr "json list"
  | JObj "(string \<times> json) list"

text \<open>\<^verbatim>\<open>receivedData\<close>: a \<^verbatim>\<open>Uint8Array\<close> or the parsed JSON of the response body.\<close>

datatype content = Uint8Array bytes | Json json

record URLDataWithHash =
  hashFunction :: string
  hash :: bytes
  url :: string

text \<open>Decoded values: the variants a \<^verbatim>\<open>valueContent\<close> can produce.\<close>

datatype dvalue = DNull | DNumber nat | DBoolean bool | DString string | DBytes bytes
  | DAddress bytes | DUrl URLDataWithHash | DArray "dvalue list" | DContent content

datatype error =
    MissingSchema
  | UnsupportedProvider
  | MissingAddress
  | MissingProvider
  | SchemaNotFoundError string
  | KeyTypeNotArray string
  | StoreError string
  | FetchError string
  | TypeError
  | EncodingError string

text \<open>The provider wrappers (\<^verbatim>\<open>providers/*\<close>) as the two reads the facade issues.\<close>

record provider =
  provider_getData :: "string option \<Rightarrow> string \<Rightarrow> error + rawvalue"
  provider_getAllData :: "string option \<Rightarrow> string list \<Rightarrow> error + KeyValuePair list"

text \<open>
  The constructor's \<^verbatim>\<open>provider\<close> argument: absent, an object with a \<^verbatim>\<open>request\<close>
  function, an object with a \<^verbatim>\<open>send\<close> function and no \<^verbatim>\<open>request\<close>, or anything else.
\<close>

datatype providerOrProviderWrapper =
    NoProvider | RequestProvider provider | SendProvider provider | OtherProvider

datatype ERC725Config = Config (config_ipfsGateway: "string option")

text \<open>A fetch response: reading it as bytes or as JSON can each reject.\<close>

record response =
  arrayBuffer :: "error + bytes"
  json_body :: "error + json"

text \<open>
  What \<^verbatim>\<open>index.ts\<close> imports and this development does not define: the key hash
  \<^verbatim>\<open>encodeKeyName\<close>, \<^verbatim>\<open>encodeArrayKey\<close>, \<^verbatim>\<open>convertIPFSGatewayUrl\<close>, web3's
  \<^verbatim>\<open>isAddress\<close>, the global \<^verbatim>\<open>fetch\<close>, the digest table keyed by hash-function
  name (\<open>None\<close>: unsupported name), the four-byte selectors of the hash functions
  and the constant \<^verbatim>\<open>SUPPORTED_HASH_FUNCTION_STRINGS.KECCAK256_BYTES\<close>.
\<close>

record env =
  encodeKeyName :: "string \<Rightarrow> string"
  encodeArrayKey :: "string \<Rightarrow> nat \<Rightarrow> string"
  convertIPFSGatewayUrl :: "string \<Rightarrow> string"
  isAddress :: "string \<Rightarrow> bool"
  fetch :: "string option \<Rightarrow> error + response"
  digest :: "string \<Rightarrow> (content \<Rightarrow> bytes) option"
  selectors :: "(string \<times> bytes) list"
  KECCAK256_BYTES :: string

text \<open>\<^verbatim>\<open>this.options\<close>.\<close>

record ERC725 =
  schemas :: "ERC725JSONSchema list"
  address :: "string option"
  provider :: "provider option"
  ipfsGateway :: string

section \<open>Construction\<close>

definition validateSchemas :: "env \<Rightarrow> ERC725JSONSchema list \<Rightarrow> ERC725JSONSchema list" where
  "validateSchemas E ss = filter (\<lambda>s. key s = encodeKeyName E (name s)) ss"

definition initializeProvider :: "providerOrProviderWrapper \<Rightarrow> error + provider option" where
  "initializeProvider p =
     (case p of
        NoProvider \<Rightarrow> Inr None
      | RequestProvider w \<Rightarrow> Inr (Some w)
      | SendProvider w \<Rightarrow> Inr (Some w)
      | OtherProvider \<Rightarrow> Inl UnsupportedProvider)"

definition defaultConfig_ipfsGateway :: string where
  "defaultConfig_ipfsGateway = ''https://cloudflare-ipfs.com/ipfs/''"

definition constructor ::
  "env \<Rightarrow> ERC725JSONSchema list option \<Rightarrow> string option \<Rightarrow> providerOrProviderWrapper
     \<Rightarrow> ERC725Config option \<Rightarrow> error + ERC725" where
  "constructor E ss a p config =
     (case ss of
        None \<Rightarrow> Inl MissingSchema
      | Some xs \<Rightarrow>
          (case initializeProvider p of
             Inl e \<Rightarrow> Inl e
           | Inr w \<Rightarrow>
               Inr \<lparr> schemas = validateSchemas E xs,
                     address = a,
                     provider = w,
                     ipfsGateway =
                       (case config of
                          Some (Config (Some g)) \<Rightarrow>
                            if g \<noteq> [] then convertIPFSGatewayUrl E g
                            else defaultConfig_ipfsGateway
                        | _ \<Rightarrow> defaultConfig_ipfsGateway) \<rparr>))"

section \<open>JavaScript strings and objects\<close>

text \<open>
  \<^verbatim>\<open>toLowerCase\<close>, on the bytes of a string: the letters \<^verbatim>\<open>A\<close> to \<^verbatim>\<open>Z\<close> are
  lowered and every other byte is kept. The code compares the result with \<^verbatim>\<open>array\<close>,
  \<^verbatim>\<open>jsonurl\<close> and \<^verbatim>\<open>asseturl\<close> only, and no character outside ASCII lowers to a
  letter of these words, so the comparisons come out as in JavaScript.
\<close>

definition toLowerCase_char :: "char \<Rightarrow> char" where
  "toLowerCase_char c =
     (case map_of (zip ''ABCDEFGHIJKLMNOPQRSTUVWXYZ'' ''abcdefghijklmnopqrstuvwxyz'') c of
        Some l \<Rightarrow> l
      | None \<Rightarrow> c)"

definition toLowerCase :: "string \<Rightarrow> string" where
  "toLowerCase s = map toLowerCase_char s"

text \<open>\<^verbatim>\<open>obj[k] = v\<close>: overwrite in place, or append a new property.\<close>

fun obj_set :: "'v jsobject \<Rightarrow> string \<Rightarrow> 'v \<Rightarrow> 'v jsobject" where
  "obj_set [] k v = [(k, v)]"
| "obj_set ((k', v') # ps) k v =
     (if k' = k then (k, v) # ps else (k', v') # obj_set ps k v)"

text \<open>\<^verbatim>\<open>{...a, ...b}\<close>.\<close>

definition spread :: "'v jsobject \<Rightarrow> 'v jsobject \<Rightarrow> 'v jsobject" where
  "spread a b = foldl (\<lambda>ob (k, v). obj_set ob k v) a b"

text \<open>JavaScript truthiness of a raw store value and of a decoded value.\<close>

fun truthy_raw :: "rawvalue \<Rightarrow> bool" where
  "truthy_raw Undefined = False"
| "truthy_raw Null = False"
| "truthy_raw (Hex b) = True"
| "truthy_raw (Entries kvs) = True"

fun truthy :: "dvalue \<Rightarrow> bool" where
  "truthy DNull = False"
| "truthy (DNumber n) = (n \<noteq> 0)"
| "truthy (DBoolean b) = b"
| "truthy (DString s) = (s \<noteq> [])"
| "truthy (DBytes b) = True"
| "truthy (DAddress b) = True"
| "truthy (DUrl u) = True"
| "truthy (DArray vs) = True"
| "truthy (DContent (Uint8Array b)) = True"
| "truthy (DContent (Json j)) =
     (case j of JNull \<Rightarrow> False | JBool b \<Rightarrow> b | JNum n \<Rightarrow> n \<noteq> 0 | JStr s \<Rightarrow> s \<noteq> []
      | JArr xs \<Rightarrow> True | JObj ps \<Rightarrow> True)"

section \<open>The library functions \<^verbatim>\<open>index.ts\<close> calls\<close>

text \<open>
  Modelled from the spec: \<^verbatim>\<open>getSchemaElement\<close> of \<^verbatim>\<open>lib/utils\<close> is missing. The
  spec's \<^verbatim>\<open>resolve\<close> (4.2): the first descriptor whose key or whose name equals the
  input; \<^verbatim>\<open>SchemaNotFoundError\<close> when there is none.
\<close>

definition getSchemaElement :: "ERC725JSONSchema list \<Rightarrow> string \<Rightarrow> error + ERC725JSONSchema" where
  "getSchemaElement ss k =
     (case find (\<lambda>s. key s = k \<or> name s = k) ss of
        None \<Rightarrow> Inl (SchemaNotFoundError k)
      | Some s \<Rightarrow> Inr s)"

text \<open>A string is its UTF-8 bytes: one \<open>char\<close> is one byte.\<close>

definition char_of_byte :: "8 word \<Rightarrow> char" where
  "char_of_byte w = char_of (unat w)"

definition byte_of_char :: "char \<Rightarrow> 8 word" where
  "byte_of_char c = of_nat (of_char c)"

text \<open>Big-endian reading of a byte string as an unsigned integer.\<close>

definition be_nat :: "bytes \<Rightarrow> nat" where
  "be_nat b = foldl (\<lambda>a x. a * 256 + unat x) 0 b"

text \<open>
  Modelled from the spec: the hash-function name of a selector (4.3); an unrecognised
  selector is marked \<^verbatim>\<open>unsupported\<close>.
\<close>

definition hashFunction_of_selector :: "env \<Rightarrow> bytes \<Rightarrow> string" where
  "hashFunction_of_selector E sel =
     (case find (\<lambda>(n, x). x = sel) (selectors E) of
        Some (n, x) \<Rightarrow> n
      | None \<Rightarrow> ''unsupported'')"

definition is_external :: "string \<Rightarrow> bool" where
  "is_external vc = (toLowerCase vc \<in> set [''jsonurl'', ''asseturl''])"

text \<open>
  Modelled from the spec: the neutral value of a value type, which an unset raw value
  decodes to (3, 4.3, 8): zero for the integer types, the empty string, false, empty
  bytes; an unset external reference is \<^verbatim>\<open>null\<close>.
\<close>

definition neutral :: "string \<Rightarrow> string \<Rightarrow> dvalue" where
  "neutral vc vt =
     (if prefix ''uint'' vt \<or> prefix ''int'' vt then DNumber 0
      else if vt = ''string'' then DString []
      else if vt = ''bool'' then DBoolean False
      else if prefix ''bytes'' vt \<and> \<not> is_external vc then DBytes []
      else DNull)"

text \<open>
  Modelled from the spec: \<^verbatim>\<open>decodeKeyValue\<close> of \<^verbatim>\<open>lib/utils\<close> is missing. The
  spec's \<^verbatim>\<open>decode\<close> of one value (4.3, 6): an unset value is the neutral value; an
  external reference is selector (4 bytes), hash (32 bytes), then the URL; an integer
  is read big-endian; a string is its UTF-8 bytes; bytes and addresses are themselves.
  An array of pairs is not a value: it decodes to \<^verbatim>\<open>null\<close> (the spec is silent; the
  case is reached only when two array descriptors of an instance share a key).
\<close>

fun decodeKeyValue :: "env \<Rightarrow> string \<Rightarrow> string \<Rightarrow> rawvalue \<Rightarrow> dvalue" where
  "decodeKeyValue E vc vt Undefined = neutral vc vt"
| "decodeKeyValue E vc vt Null = neutral vc vt"
| "decodeKeyValue E vc vt (Entries kvs) = DNull"
| "decodeKeyValue E vc vt (Hex b) =
     (if is_external vc then
        DUrl \<lparr> hashFunction = hashFunction_of_selector E (take 4 b),
               hash = take 32 (drop 4 b),
               url = map char_of_byte (drop 36 b) \<rparr>
      else if toLowerCase vc = ''number'' then DNumber (be_nat b)
      else if toLowerCase vc = ''string'' then DString (map char_of_byte b)
      else if toLowerCase vc = ''boolean'' then DBoolean (be_nat b \<noteq> 0)
      else if toLowerCase vc = ''address'' then DAddress b
      else DBytes b)"

definition lookup_raw :: "KeyValuePair list \<Rightarrow> string \<Rightarrow> rawvalue" where
  "lookup_raw kvs k = (case map_of kvs k of None \<Rightarrow> Undefined | Some r \<Rightarrow> r)"

definition number_of :: "dvalue \<Rightarrow> nat" where
  "number_of v = (case v of DNumber n \<Rightarrow> n | _ \<Rightarrow> 0)"

text \<open>
  Modelled from the spec: \<^verbatim>\<open>decodeKey\<close> of \<^verbatim>\<open>lib/utils\<close> is missing. The spec's
  \<^verbatim>\<open>decode\<close> of a descriptor (4.3): an Array descriptor takes the length entry and the
  element entries and yields the elements in index order, a missing element being the
  neutral value; with no element entries, or an unset value, it yields the empty
  sequence. Any other descriptor decodes its one value.
\<close>

definition decodeKey :: "env \<Rightarrow> ERC725JSONSchema \<Rightarrow> rawvalue \<Rightarrow> dvalue" where
  "decodeKey E s v =
     (if toLowerCase (keyType s) = ''array'' then
        (case v of
           Entries kvs \<Rightarrow>
             (if filter (\<lambda>(k, x). k \<noteq> key s) kvs = [] then DArray []
              else DArray (map (\<lambda>i. decodeKeyValue E (valueContent s) (valueType s)
                                       (lookup_raw kvs (encodeArrayKey E (key s) i)))
                     [0 ..< number_of (decodeKeyValue E ''Number'' ''uint256''
                                         (lookup_raw kvs (key s)))]))
         | _ \<Rightarrow> DArray [])
      else decodeKeyValue E (valueContent s) (valueType s) v)"

text \<open>
  Modelled from the spec: \<^verbatim>\<open>decodeData\<close> of \<^verbatim>\<open>lib/utils\<close> is missing. Every entry
  is resolved to its descriptor and decoded under the descriptor's name (4.6).
\<close>

fun decodeData_from ::
  "env \<Rightarrow> ERC725JSONSchema list \<Rightarrow> dvalue jsobject \<Rightarrow> rawvalue jsobject
     \<Rightarrow> error + dvalue jsobject" where
  "decodeData_from E ss acc [] = Inr acc"
| "decodeData_from E ss acc ((k, v) # rest) =
     (case getSchemaElement ss k of
        Inl e \<Rightarrow> Inl e
      | Inr s \<Rightarrow> decodeData_from E ss (obj_set acc (name s) (decodeKey E s v)) rest)"

definition decodeData ::
  "env \<Rightarrow> rawvalue jsobject \<Rightarrow> ERC725JSONSchema list \<Rightarrow> error + dvalue jsobject" where
  "decodeData E data ss = decodeData_from E ss [] data"

section \<open>Reading: \<^verbatim>\<open>getArrayValues\<close>, \<^verbatim>\<open>getDataSingle\<close>, \<^verbatim>\<open>getDataMultiple\<close>, \<^verbatim>\<open>getData\<close>\<close>

text \<open>
  \<^verbatim>\<open>data\<close> maps a key to a \<^verbatim>\<open>{key, value}\<close> pair. \<open>arrayElementKeys\<close> is the
  loop collecting the element keys absent from \<^verbatim>\<open>data\<close>. Their batched read sits in
  a \<^verbatim>\<open>try\<close> whose \<^verbatim>\<open>catch\<close> is empty: a fault of the read, and the spread of
  \<^verbatim>\<open>undefined\<close> when there is no provider, leave \<^verbatim>\<open>results\<close> empty.
\<close>

definition arrayElementKeys ::
  "env \<Rightarrow> ERC725JSONSchema \<Rightarrow> KeyValuePair jsobject \<Rightarrow> rawvalue \<Rightarrow> string list" where
  "arrayElementKeys E s data v =
     filter (\<lambda>k. map_of data k = None)
       (map (encodeArrayKey E (key s))
          [0 ..< number_of (decodeKeyValue E ''Number'' ''uint256'' v)])"

definition getArrayValues ::
  "env \<Rightarrow> ERC725 \<Rightarrow> ERC725JSONSchema \<Rightarrow> KeyValuePair jsobject \<Rightarrow> error + KeyValuePair list" where
  "getArrayValues E this s data =
     (if keyType s \<noteq> ''Array'' then Inl (KeyTypeNotArray (name s))
      else
        (case map_of data (key s) of
           None \<Rightarrow> Inr []
         | Some (k, v) \<Rightarrow>
             if \<not> truthy_raw v then Inr []
             else
               (case provider this of
                  None \<Rightarrow> Inr []
                | Some p \<Rightarrow>
                    (case provider_getAllData p (address this) (arrayElementKeys E s data v) of
                       Inl e \<Rightarrow> Inr []
                     | Inr arrayElements \<Rightarrow> Inr arrayElements))))"

definition getDataSingle :: "env \<Rightarrow> ERC725 \<Rightarrow> string \<Rightarrow> error + dvalue" where
  "getDataSingle E this data =
     (case getSchemaElement (schemas this) data of
        Inl e \<Rightarrow> Inl e
      | Inr keySchema \<Rightarrow>
          (case (case provider this of
                   None \<Rightarrow> Inr Undefined
                 | Some p \<Rightarrow> provider_getData p (address this) (key keySchema)) of
             Inl e \<Rightarrow> Inl e
           | Inr rawData \<Rightarrow>
               if toLowerCase (keyType keySchema) = ''array'' then
                 (case getArrayValues E this keySchema
                         [(key keySchema, (key keySchema, rawData))] of
                    Inl e \<Rightarrow> Inl e
                  | Inr arrayValues \<Rightarrow>
                      if arrayValues \<noteq> [] then
                        Inr (decodeKey E keySchema
                               (Entries (arrayValues @ [(key keySchema, rawData)])))
                      else Inr (DArray []))
               else Inr (decodeKey E keySchema rawData)))"

text \<open>\<^verbatim>\<open>keyNames.map\<close>: the first name without a descriptor throws.\<close>

fun keyHashes_of :: "ERC725JSONSchema list \<Rightarrow> string list \<Rightarrow> error + string list" where
  "keyHashes_of ss [] = Inr []"
| "keyHashes_of ss (keyName # rest) =
     (case getSchemaElement ss keyName of
        Inl e \<Rightarrow> Inl e
      | Inr schemaElement \<Rightarrow>
          (case keyHashes_of ss rest of
             Inl e \<Rightarrow> Inl e
           | Inr ks \<Rightarrow> Inr (key schemaElement # ks)))"

text \<open>The loop over the Array descriptors of the instance, threading \<^verbatim>\<open>tmpData\<close>.\<close>

fun arraySchemas_loop ::
  "env \<Rightarrow> ERC725 \<Rightarrow> rawvalue jsobject \<Rightarrow> ERC725JSONSchema list \<Rightarrow> error + rawvalue jsobject" where
  "arraySchemas_loop E this tmpData [] = Inr tmpData"
| "arraySchemas_loop E this tmpData (keySchema # rest) =
     (case getArrayValues E this keySchema
             [(key keySchema, (key keySchema, lookup_raw tmpData (key keySchema)))] of
        Inl e \<Rightarrow> Inl e
      | Inr arrayValues \<Rightarrow>
          arraySchemas_loop E this
            (if arrayValues \<noteq> [] then
               obj_set tmpData (key keySchema)
                 (Entries (arrayValues @ [(key keySchema, lookup_raw tmpData (key keySchema))]))
             else tmpData)
            rest)"

definition getDataMultiple :: "env \<Rightarrow> ERC725 \<Rightarrow> string list \<Rightarrow> error + dvalue jsobject" where
  "getDataMultiple E this keyNames =
     (case keyHashes_of (schemas this) keyNames of
        Inl e \<Rightarrow> Inl e
      | Inr keyHashes \<Rightarrow>
          (case provider this of
             None \<Rightarrow> Inl TypeError
           | Some p \<Rightarrow>
               (case provider_getAllData p (address this) keyHashes of
                  Inl e \<Rightarrow> Inl e
                | Inr allRawData \<Rightarrow>
                    (case arraySchemas_loop E this
                            (foldl (\<lambda>accumulator (k, v). obj_set accumulator k v) [] allRawData)
                            (filter (\<lambda>e. toLowerCase (keyType e) = ''array'') (schemas this)) of
                       Inl e \<Rightarrow> Inl e
                     | Inr tmpData \<Rightarrow> decodeData E tmpData (schemas this)))))"

definition getAddressAndProvider :: "env \<Rightarrow> ERC725 \<Rightarrow> error + string \<times> provider" where
  "getAddressAndProvider E this =
     (case address this of
        None \<Rightarrow> Inl MissingAddress
      | Some a \<Rightarrow>
          if a = [] \<or> \<not> isAddress E a then Inl MissingAddress
          else (case provider this of
                  None \<Rightarrow> Inl MissingProvider
                | Some p \<Rightarrow> Inr (a, p)))"

text \<open>The argument \<^verbatim>\<open>keyOrKeys\<close>: absent, one string, or an array of strings.\<close>

datatype keyOrKeys = NoKeys | Key string | Keys "string list"

datatype data_result = Value dvalue | Object "dvalue jsobject"

definition getData :: "env \<Rightarrow> ERC725 \<Rightarrow> keyOrKeys \<Rightarrow> error + data_result" where
  "getData E this ks =
     (case getAddressAndProvider E this of
        Inl e \<Rightarrow> Inl e
      | Inr ap \<Rightarrow>
          (case (if ks = NoKeys \<or> ks = Key [] then Keys (map name (schemas this)) else ks) of
             Keys keyNames \<Rightarrow> map_sum id Object (getDataMultiple E this keyNames)
           | Key keyName \<Rightarrow> map_sum id Value (getDataSingle E this keyName)
           | NoKeys \<Rightarrow> Inl TypeError))"

section \<open>External references: \<^verbatim>\<open>patchIPFSUrlsIfApplicable\<close>, \<^verbatim>\<open>getDataFromExternalSources\<close>, \<^verbatim>\<open>fetchData\<close>\<close>

text \<open>
  \<^verbatim>\<open>s.indexOf(pat)\<close>: the text before and the text behind the first occurrence of \<^verbatim>\<open>pat\<close>,
  \<open>None\<close> for \<^verbatim>\<open>-1\<close>.
\<close>

fun indexOf :: "string \<Rightarrow> string \<Rightarrow> (string \<times> string) option" where
  "indexOf [] pat = (if pat = [] then Some ([], []) else None)"
| "indexOf (c # cs) pat =
     (if prefix pat (c # cs) then Some ([], drop (length pat) (c # cs))
      else map_option (\<lambda>(pre, post). (c # pre, post)) (indexOf cs pat))"

text \<open>
  The replacement text of \<^verbatim>\<open>String.prototype.replace\<close> with a string pattern: in the
  replacement, \<^verbatim>\<open>$$\<close> is a dollar sign, \<^verbatim>\<open>$&\<close> the matched text, \<^verbatim>\<open>$`\<close> the text
  before the match and \<^verbatim>\<open>$'\<close> the text behind it; any other character stands for itself.
\<close>

fun GetSubstitution :: "string \<Rightarrow> string \<Rightarrow> string \<Rightarrow> string \<Rightarrow> string" where
  "GetSubstitution matched pre post [] = []"
| "GetSubstitution matched pre post [c] = [c]"
| "GetSubstitution matched pre post (c # d # r) =
     (if c = CHR ''$'' \<and> d = CHR ''$'' then CHR ''$'' # GetSubstitution matched pre post r
      else if c = CHR ''$'' \<and> d = CHR ''&'' then matched @ GetSubstitution matched pre post r
      else if c = CHR ''$'' \<and> d = CHR 0x60 then pre @ GetSubstitution matched pre post r
      else if c = CHR ''$'' \<and> d = CHR 0x27 then post @ GetSubstitution matched pre post r
      else c # GetSubstitution matched pre post (d # r))"

definition replace :: "string \<Rightarrow> string \<Rightarrow> string \<Rightarrow> string" where
  "replace s pat replacement =
     (case indexOf s pat of
        None \<Rightarrow> s
      | Some (pre, post) \<Rightarrow> pre @ GetSubstitution pat pre post replacement @ post)"

text \<open>
  Property reads on a decoded value: only a reference object has \<^verbatim>\<open>url\<close>, \<^verbatim>\<open>hash\<close>
  and \<^verbatim>\<open>hashFunction\<close>; on any other value the read is \<^verbatim>\<open>undefined\<close>.
\<close>

definition url_of :: "dvalue \<Rightarrow> string option" where
  "url_of v = (case v of DUrl u \<Rightarrow> Some (url u) | _ \<Rightarrow> None)"

definition hash_of :: "dvalue \<Rightarrow> bytes option" where
  "hash_of v = (case v of DUrl u \<Rightarrow> Some (hash u) | _ \<Rightarrow> None)"

definition hashFunction_of :: "dvalue \<Rightarrow> string option" where
  "hashFunction_of v = (case v of DUrl u \<Rightarrow> Some (hashFunction u) | _ \<Rightarrow> None)"

definition patchIPFSUrlsIfApplicable :: "ERC725 \<Rightarrow> dvalue \<Rightarrow> dvalue" where
  "patchIPFSUrlsIfApplicable this receivedData =
     (case receivedData of
        DUrl u \<Rightarrow>
          if url u \<noteq> [] \<and> indexOf (url u) ''ipfs://'' \<noteq> None
          then DUrl (u\<lparr> url := replace (url u) ''ipfs://'' (ipfsGateway this) \<rparr>)
          else receivedData
      | _ \<Rightarrow> receivedData)"

text \<open>
  Modelled from the spec: \<^verbatim>\<open>isDataAuthentic\<close> of \<^verbatim>\<open>lib/utils\<close> is missing. The
  digest of the content under the named hash function is compared with the stored
  hash; an unsupported hash function is never authentic (4.5).
\<close>

definition isDataAuthentic :: "env \<Rightarrow> content \<Rightarrow> bytes option \<Rightarrow> string option \<Rightarrow> bool" where
  "isDataAuthentic E d h hf =
     (case hf of
        None \<Rightarrow> False
      | Some f \<Rightarrow>
          (case digest E f of
             None \<Rightarrow> False
           | Some dg \<Rightarrow> h = Some (dg d)))"

text \<open>
  The \<^verbatim>\<open>try\<close> block of the reducer: the URL is patched, fetched, and the response read
  as bytes under \<^verbatim>\<open>keccak256(bytes)\<close> and as JSON otherwise. The \<^verbatim>\<open>catch\<close> rethrows.
\<close>

definition receive :: "env \<Rightarrow> ERC725 \<Rightarrow> dvalue \<Rightarrow> error + content" where
  "receive E this dataEntry =
     (case fetch E (url_of (patchIPFSUrlsIfApplicable this dataEntry)) of
        Inl e \<Rightarrow> Inl e
      | Inr response \<Rightarrow>
          if hashFunction_of dataEntry = Some (KECCAK256_BYTES E)
          then map_sum id Uint8Array (arrayBuffer response)
          else map_sum id Json (json_body response))"

text \<open>
  The accumulator of the \<^verbatim>\<open>reduce\<close>. Its callback is \<^verbatim>\<open>async\<close>: the first call gets
  the plain object \<^verbatim>\<open>{}\<close>, every later call gets the promise the call preceding it
  returned. A promise is modelled by what it settles to and by the properties written
  onto the promise object itself.
\<close>

datatype accumulator =
    Plain "dvalue jsobject"
  | Promise "error + dvalue jsobject" "dvalue jsobject"

text \<open>\<^verbatim>\<open>accumulator[key] = v\<close>.\<close>

fun set_property :: "accumulator \<Rightarrow> string \<Rightarrow> dvalue \<Rightarrow> accumulator" where
  "set_property (Plain ob) k v = Plain (obj_set ob k v)"
| "set_property (Promise r props) k v = Promise r (obj_set props k v)"

text \<open>
  \<^verbatim>\<open>return accumulator\<close> in an \<^verbatim>\<open>async\<close> function: the promise of the call settles
  to the object, or as the returned promise settles.
\<close>

fun async_return :: "accumulator \<Rightarrow> accumulator" where
  "async_return (Plain ob) = Promise (Inr ob) []"
| "async_return (Promise r props) = Promise r []"

definition reducer :: "env \<Rightarrow> ERC725 \<Rightarrow> accumulator \<Rightarrow> string \<times> dvalue \<Rightarrow> accumulator" where
  "reducer E this accu entry =
     (case entry of
        (k, dataEntry) \<Rightarrow>
          if \<not> truthy dataEntry then async_return (set_property accu k DNull)
          else
            (case receive E this dataEntry of
               Inl e \<Rightarrow> Promise (Inl e) []
             | Inr receivedData \<Rightarrow>
                 async_return
                   (set_property accu k
                      (if isDataAuthentic E receivedData (hash_of dataEntry)
                            (hashFunction_of dataEntry)
                       then DContent receivedData else DNull))))"

text \<open>
  What one call of the reducer computes for its entry, apart from where it writes it:
  \<^verbatim>\<open>null\<close> for a falsy entry, the error of the fetch, or the content when it is
  authentic and \<^verbatim>\<open>null\<close> when it is not.
\<close>

definition resolve_entry :: "env \<Rightarrow> ERC725 \<Rightarrow> dvalue \<Rightarrow> error + dvalue" where
  "resolve_entry E this dataEntry =
     (if \<not> truthy dataEntry then Inr DNull
      else
        (case receive E this dataEntry of
           Inl e \<Rightarrow> Inl e
         | Inr receivedData \<Rightarrow>
             Inr (if isDataAuthentic E receivedData (hash_of dataEntry)
                       (hashFunction_of dataEntry)
                  then DContent receivedData else DNull)))"

text \<open>The \<^verbatim>\<open>filter\<close>: the entries whose descriptor is a JSONURL or an ASSETURL.\<close>

fun external_entries ::
  "ERC725JSONSchema list \<Rightarrow> dvalue jsobject \<Rightarrow> error + dvalue jsobject" where
  "external_entries ss [] = Inr []"
| "external_entries ss ((k, v) # rest) =
     (case getSchemaElement ss k of
        Inl e \<Rightarrow> Inl e
      | Inr keySchema \<Rightarrow>
          (case external_entries ss rest of
             Inl e \<Rightarrow> Inl e
           | Inr es \<Rightarrow> Inr (if is_external (valueContent keySchema) then (k, v) # es else es)))"

definition getDataFromExternalSources ::
  "env \<Rightarrow> ERC725 \<Rightarrow> dvalue jsobject \<Rightarrow> error + accumulator" where
  "getDataFromExternalSources E this dataFromChain =
     (case external_entries (schemas this) dataFromChain of
        Inl e \<Rightarrow> Inl e
      | Inr es \<Rightarrow> Inr (foldl (reducer E this) (Plain []) es))"

text \<open>\<^verbatim>\<open>await\<close> of the accumulator \<^verbatim>\<open>reduce\<close> returned.\<close>

fun await :: "accumulator \<Rightarrow> error + dvalue jsobject" where
  "await (Plain ob) = Inr ob"
| "await (Promise r props) = r"

text \<open>
  \<^verbatim>\<open>fetchData\<close>. \<^verbatim>\<open>keys\<close> is never a non-empty string, so \<^verbatim>\<open>getData\<close> takes the
  multi-key read and \<^verbatim>\<open>dataFromChain\<close> is an object.
\<close>

definition fetchData :: "env \<Rightarrow> ERC725 \<Rightarrow> keyOrKeys \<Rightarrow> error + data_result" where
  "fetchData E this ks =
     (case getData E this (case ks of Key k \<Rightarrow> if k = [] then Key k else Keys [k] | _ \<Rightarrow> ks) of
        Inl e \<Rightarrow> Inl e
      | Inr (Value v) \<Rightarrow> Inl TypeError
      | Inr (Object dataFromChain) \<Rightarrow>
          (case getDataFromExternalSources E this dataFromChain of
             Inl e \<Rightarrow> Inl e
           | Inr accu \<Rightarrow>
               (case await accu of
                  Inl e \<Rightarrow> Inl e
                | Inr dataFromExternalSources \<Rightarrow>
                    (let results = spread dataFromChain dataFromExternalSources
                     in case ks of
                          Key k \<Rightarrow>
                            (case map_of results k of
                               Some v \<Rightarrow> Inr (Value v)
                             | None \<Rightarrow> Inr (Value DNull))
                        | _ \<Rightarrow> Inr (Object results)))))"

section \<open>The codec facade: \<^verbatim>\<open>encodeData\<close>, \<^verbatim>\<open>decodeData\<close>\<close>







section \<open>A concrete environment and instances\<close>

text \<open>
  A small world to run the definitions in: a toy key hash, a gateway, a digest that
  counts the characters of a JSON string, and a store holding five external references,
  a string and an array length. A fetch of a URL nobody serves fails with an error that
  carries the URL.
\<close>

definition toy_digest :: "content \<Rightarrow> bytes" where
  "toy_digest c = (case c of Json (JStr t) \<Rightarrow> replicate 32 (of_nat (length t)) | _ \<Rightarrow> replicate 32 0)"

definition env0 :: env where
  "env0 =
     \<lparr> encodeKeyName = (\<lambda>n. ''0x'' @ n),
       encodeArrayKey = (\<lambda>k i. k @ CHR ''#'' # replicate i (CHR ''i'')),
       convertIPFSGatewayUrl = (\<lambda>g. g),
       isAddress = (\<lambda>a. True),
       fetch =
         (\<lambda>u. if u = Some ''https://gw/ipfs/QmA''
                then Inr \<lparr> arrayBuffer = Inr [], json_body = Inr (JStr ''a'') \<rparr>
              else if u = Some ''https://gw/ipfs/QmB''
                then Inr \<lparr> arrayBuffer = Inr [], json_body = Inr (JStr ''b'') \<rparr>
              else if u = Some ''https://gw/ipfs/QmC''
                then Inr \<lparr> arrayBuffer = Inr [], json_body = Inr (JStr ''cc'') \<rparr>
              else if u = Some ''https://gw/ipfs/QmD''
                then Inr \<lparr> arrayBuffer = Inr [1], json_body = Inl (FetchError ''SyntaxError'') \<rparr>
              else Inl (FetchError (case u of None \<Rightarrow> ''undefined'' | Some x \<Rightarrow> x))),
       digest =
         (\<lambda>f. if f = ''keccak256(utf8)'' \<or> f = ''keccak256(bytes)'' then Some toy_digest
              else None),
       selectors = [(''keccak256(utf8)'', [1, 2, 3, 4]), (''keccak256(bytes)'', [5, 6, 7, 8])],
       KECCAK256_BYTES = ''keccak256(bytes)'' \<rparr>"

definition reference :: "bytes \<Rightarrow> string \<Rightarrow> rawvalue" where
  "reference sel u = Hex (sel @ replicate 32 1 @ map byte_of_char u)"

definition store0 :: "KeyValuePair list" where
  "store0 =
     [(''0xA'', reference [1, 2, 3, 4] ''ipfs://QmA''),
      (''0xB'', reference [1, 2, 3, 4] ''ipfs://QmB''),
      (''0xC'', reference [1, 2, 3, 4] ''ipfs://QmC''),
      (''0xD'', reference [9, 9, 9, 9] ''ipfs://QmD''),
      (''0xF'', reference [9, 9, 9, 9] ''ipfs://QmA''),
      (''0xMyValue'', Hex (map byte_of_char ''hello'')),
      (''0xL[]'', Hex [2])]"

text \<open>
  A provider serving \<open>store0\<close>; its batched read rejects the element keys of the
  array \<^verbatim>\<open>L[]\<close>.
\<close>

definition provider0 :: provider where
  "provider0 =
     \<lparr> provider_getData = (\<lambda>a k. Inr (case map_of store0 k of None \<Rightarrow> Null | Some r \<Rightarrow> r)),
       provider_getAllData =
         (\<lambda>a ks. if ks = [''0xL[]#'', ''0xL[]#i''] then Inl (StoreError ''no such key'')
                 else Inr (map (\<lambda>k. (k, case map_of store0 k of None \<Rightarrow> Null | Some r \<Rightarrow> r)) ks)) \<rparr>"

definition schema0 :: "string \<Rightarrow> string \<Rightarrow> string \<Rightarrow> string \<Rightarrow> ERC725JSONSchema" where
  "schema0 n kt vt vc =
     \<lparr> name = n, key = ''0x'' @ n, keyType = kt, valueType = vt, valueContent = vc \<rparr>"

definition instance0 :: "ERC725JSONSchema list \<Rightarrow> ERC725" where
  "instance0 ss =
     \<lparr> schemas = ss, address = Some ''0xabc'', provider = Some provider0,
       ipfsGateway = ''https://gw/ipfs/'' \<rparr>"

text \<open>Descriptors over the toy key hash; \<open>stale\<close> carries a key that is not its name's.\<close>

definition refA :: ERC725JSONSchema where
  "refA = schema0 ''A'' ''Singleton'' ''bytes'' ''JSONURL''"

definition refB :: ERC725JSONSchema where
  "refB = schema0 ''B'' ''Singleton'' ''bytes'' ''JSONURL''"

definition refC :: ERC725JSONSchema where
  "refC = schema0 ''C'' ''Singleton'' ''bytes'' ''JSONURL''"

definition refD :: ERC725JSONSchema where
  "refD = schema0 ''D'' ''Singleton'' ''bytes'' ''JSONURL''"

definition refF :: ERC725JSONSchema where
  "refF = schema0 ''F'' ''Singleton'' ''bytes'' ''JSONURL''"

definition myValue :: ERC725JSONSchema where
  "myValue = schema0 ''MyValue'' ''Singleton'' ''string'' ''String''"

definition listL :: ERC725JSONSchema where
  "listL = schema0 ''L[]'' ''Array'' ''string'' ''String''"

definition listL_lowercase :: ERC725JSONSchema where
  "listL_lowercase = schema0 ''L[]'' ''array'' ''string'' ''String''"

definition stale :: ERC725JSONSchema where
  "stale = (schema0 ''Stale'' ''Singleton'' ''string'' ''String'') \<lparr> key := ''0xOld'' \<rparr>"

text \<open>What the references of \<open>store0\<close> decode to.\<close>

definition decoded_reference :: "string \<Rightarrow> string \<Rightarrow> dvalue" where
  "decoded_reference f u = DUrl \<lparr> hashFunction = f, hash = replicate 32 1, url = u \<rparr>"

definition listE :: ERC725JSONSchema where
  "listE = schema0 ''E[]'' ''Array'' ''string'' ''String''"

definition counter :: ERC725JSONSchema where
  "counter = schema0 ''Counter'' ''Singleton'' ''uint256'' ''Number''"


section \<open>Facts about the library functions and the concrete world\<close>

lemma char_of_byte_of_char [simp]: "char_of_byte (byte_of_char c) = c"
  by (simp add: char_of_byte_def byte_of_char_def unat_of_nat)

lemma toLowerCase_Array: "toLowerCase ''Array'' = ''array''"
  by (simp add: toLowerCase_def toLowerCase_char_def)

lemma getSchemaElement_InrD:
  "getSchemaElement ss k = Inr s \<Longrightarrow> s \<in> set ss \<and> (key s = k \<or> name s = k)"
  by (auto simp: getSchemaElement_def find_Some_iff split: option.splits)

lemma getSchemaElement_InlD:
  "getSchemaElement ss k = Inl e \<Longrightarrow>
     e = SchemaNotFoundError k \<and> (\<forall>s \<in> set ss. key s \<noteq> k \<and> name s \<noteq> k)"
  by (auto simp: getSchemaElement_def find_None_iff split: option.splits)

lemmas fixture_defs = env0_def instance0_def provider0_def store0_def schema0_def
  reference_def refA_def refB_def refC_def refD_def refF_def myValue_def listL_def
  listL_lowercase_def stale_def toy_digest_def listE_def counter_def

lemmas lower_defs = toLowerCase_def toLowerCase_char_def is_external_def

lemmas read_defs = getData_def getAddressAndProvider_def getDataMultiple_def
  getDataSingle_def getSchemaElement_def decodeData_def decodeKey_def lookup_raw_def
  getArrayValues_def arrayElementKeys_def number_of_def be_nat_def

section \<open>Construction keeps exactly the descriptors whose key is their name's\<close>

text \<open>
  C4. Construction-time validation accepts exactly the descriptors whose supplied key
  equals \<open>encodeKeyName\<close> of their name and keeps them in their order. A rejected
  descriptor is not part of the instance: an input list with the same accepted
  descriptors builds the very same instance, so no operation of the instance can tell
  them apart, and whatever the instance resolves is an accepted descriptor of the input.
\<close>

theorem validateSchemas_accepts_exactly_the_valid_keys:
  "constructor E (Some ss) a p config = Inr this \<Longrightarrow>
     schemas this = filter (\<lambda>s. key s = encodeKeyName E (name s)) ss \<and>
     (\<forall>s. s \<in> set (schemas this) \<longleftrightarrow> s \<in> set ss \<and> key s = encodeKeyName E (name s)) \<and>
     subseq (schemas this) ss \<and>
     (\<forall>ss'. filter (\<lambda>s. key s = encodeKeyName E (name s)) ss' = schemas this \<longrightarrow>
            constructor E (Some ss') a p config = Inr this) \<and>
     (\<forall>k s. getSchemaElement (schemas this) k = Inr s \<longrightarrow>
            s \<in> set ss \<and> key s = encodeKeyName E (name s))"
proof -
  assume c: "constructor E (Some ss) a p config = Inr this"
  then obtain w where w: "initializeProvider p = Inr w"
    by (auto simp: constructor_def split: sum.splits)
  from c w have sch: "schemas this = filter (\<lambda>s. key s = encodeKeyName E (name s)) ss"
    by (auto simp: constructor_def validateSchemas_def)
  have same: "constructor E (Some ss') a p config = Inr this"
    if "filter (\<lambda>s. key s = encodeKeyName E (name s)) ss' = schemas this" for ss'
    using c w that sch by (simp add: constructor_def validateSchemas_def)
  have res: "s \<in> set ss \<and> key s = encodeKeyName E (name s)"
    if "getSchemaElement (schemas this) k = Inr s" for k s
    using getSchemaElement_InrD [OF that] sch by simp
  have mem: "s \<in> set (schemas this) \<longleftrightarrow> s \<in> set ss \<and> key s = encodeKeyName E (name s)"
    for s
    by (simp add: sch)
  have sub: "subseq (schemas this) ss"
    by (simp add: sch)
  from sch mem sub same res show ?thesis by blast
qed

theorem validateSchemas_accepts_exactly_the_valid_keys_witness:
  "constructor env0 (Some [myValue, stale, refA]) (Some ''0xabc'') NoProvider None =
     Inr \<lparr> schemas = [myValue, refA], address = Some ''0xabc'', provider = None,
           ipfsGateway = defaultConfig_ipfsGateway \<rparr> \<and>
   subseq [myValue, refA] [myValue, stale, refA] \<and>
   stale \<notin> set [myValue, refA] \<and>
   constructor env0 (Some [myValue, refA, stale]) (Some ''0xabc'') NoProvider None =
     Inr \<lparr> schemas = [myValue, refA], address = Some ''0xabc'', provider = None,
           ipfsGateway = defaultConfig_ipfsGateway \<rparr> \<and>
   getSchemaElement [myValue, refA] ''Stale'' = Inl (SchemaNotFoundError ''Stale'')"
proof -
  let ?inst = "\<lparr> schemas = [myValue, refA], address = Some ''0xabc'', provider = None,
                  ipfsGateway = defaultConfig_ipfsGateway \<rparr>"
  have h: "constructor env0 (Some [myValue, stale, refA]) (Some ''0xabc'') NoProvider None =
             Inr ?inst"
    by (simp add: constructor_def initializeProvider_def validateSchemas_def fixture_defs)
  note t = validateSchemas_accepts_exactly_the_valid_keys [OF h]
  have f: "filter (\<lambda>s. key s = encodeKeyName env0 (name s)) [myValue, refA, stale] =
             schemas ?inst"
    by (simp add: fixture_defs)
  from t have "subseq (schemas ?inst) [myValue, stale, refA]" by (elim conjE)
  then have 1: "subseq [myValue, refA] [myValue, stale, refA]" by simp
  from t have "stale \<in> set (schemas ?inst) \<longleftrightarrow>
      stale \<in> set [myValue, stale, refA] \<and> key stale = encodeKeyName env0 (name stale)"
    by (elim conjE allE)
  moreover have "key stale \<noteq> encodeKeyName env0 (name stale)"
    by (simp add: fixture_defs)
  ultimately have 2: "stale \<notin> set [myValue, refA]" by simp
  from t have "filter (\<lambda>s. key s = encodeKeyName env0 (name s)) [myValue, refA, stale] =
      schemas ?inst \<longrightarrow>
      constructor env0 (Some [myValue, refA, stale]) (Some ''0xabc'') NoProvider None =
        Inr ?inst"
    by (elim conjE allE)
  with f have 3: "constructor env0 (Some [myValue, refA, stale]) (Some ''0xabc'') NoProvider None =
             Inr ?inst" by (rule rev_mp)
  have 4: "getSchemaElement [myValue, refA] ''Stale'' = Inl (SchemaNotFoundError ''Stale'')"
    by (simp add: getSchemaElement_def fixture_defs)
  show ?thesis
    by (intro conjI h 1 2 3 4)
qed

section \<open>A name without a descriptor aborts the multi-key read\<close>

lemma keyHashes_of_unknown:
  "keyName \<in> set keyNames \<Longrightarrow> getSchemaElement ss keyName = Inl e \<Longrightarrow>
     \<exists>n \<in> set keyNames. keyHashes_of ss keyNames = Inl (SchemaNotFoundError n) \<and>
        getSchemaElement ss n = Inl (SchemaNotFoundError n)"
proof (induction keyNames)
  case Nil
  then show ?case by simp
next
  case (Cons x xs)
  show ?case
  proof (cases "getSchemaElement ss x")
    case (Inl e')
    then show ?thesis using getSchemaElement_InlD [OF Inl] by simp
  next
    case (Inr s)
    with Cons.prems have "keyName \<in> set xs" by auto
    from Cons.IH [OF this Cons.prems(2)] Inr show ?thesis by auto
  qed
qed

text \<open>
  C3, as the code has it. The claim that the unknown entry is mapped to \<^verbatim>\<open>null\<close> (or
  left out) while the other names are still decoded fails: in the concrete world the
  batch \<^verbatim>\<open>['MyValue', 'Nope']\<close> is an error, although \<^verbatim>\<open>['MyValue']\<close> alone decodes.
\<close>

theorem getData_unknown_name_counterexample:
  "getData env0 (instance0 [myValue, refA]) (Keys [''MyValue'', ''Nope'']) =
     Inl (SchemaNotFoundError ''Nope'') \<and>
   getData env0 (instance0 [myValue, refA]) (Keys [''MyValue'', ''Nope'']) \<noteq>
     Inr (Object [(''MyValue'', DString ''hello''), (''Nope'', DNull)]) \<and>
   getData env0 (instance0 [myValue, refA]) (Keys [''MyValue'', ''Nope'']) \<noteq>
     Inr (Object [(''MyValue'', DString ''hello'')]) \<and>
   getData env0 (instance0 [myValue, refA]) (Keys [''MyValue'']) =
     Inr (Object [(''MyValue'', DString ''hello'')])"
proof -
  have 1: "getData env0 (instance0 [myValue, refA]) (Keys [''MyValue'', ''Nope'']) =
             Inl (SchemaNotFoundError ''Nope'')"
    by (simp add: fixture_defs read_defs)
  have 2: "getData env0 (instance0 [myValue, refA]) (Keys [''MyValue'']) =
             Inr (Object [(''MyValue'', DString ''hello'')])"
    by (simp add: fixture_defs read_defs lower_defs)
  from 1 2 show ?thesis by simp
qed

text \<open>
  C3, amended. When some requested name has no descriptor, \<open>getDataMultiple\<close> fails with
  \<^verbatim>\<open>SchemaNotFoundError\<close> for a requested name that has none, and \<open>getData\<close> on the
  array of names returns an error: the whole batch is aborted.
\<close>

theorem getDataMultiple_unknown_name_aborts_batch:
  "keyName \<in> set keyNames \<Longrightarrow> getSchemaElement (schemas this) keyName = Inl e \<Longrightarrow>
     (\<exists>n \<in> set keyNames.
        getDataMultiple E this keyNames = Inl (SchemaNotFoundError n) \<and>
        getSchemaElement (schemas this) n = Inl (SchemaNotFoundError n)) \<and>
     (\<exists>e'. getData E this (Keys keyNames) = Inl e')"
proof -
  assume a: "keyName \<in> set keyNames" "getSchemaElement (schemas this) keyName = Inl e"
  from keyHashes_of_unknown [OF a] obtain n where n: "n \<in> set keyNames"
    "keyHashes_of (schemas this) keyNames = Inl (SchemaNotFoundError n)"
    "getSchemaElement (schemas this) n = Inl (SchemaNotFoundError n)" by blast
  then have m: "getDataMultiple E this keyNames = Inl (SchemaNotFoundError n)"
    by (simp add: getDataMultiple_def)
  have "\<exists>e'. getData E this (Keys keyNames) = Inl e'"
    using m by (simp add: getData_def split: sum.splits)
  with n m show ?thesis by blast
qed

theorem getDataMultiple_unknown_name_aborts_batch_witness:
  "''Nope'' \<in> set [''MyValue'', ''Nope''] \<and>
   getSchemaElement (schemas (instance0 [myValue, refA])) ''Nope'' =
     Inl (SchemaNotFoundError ''Nope'') \<and>
   (\<exists>n \<in> set [''MyValue'', ''Nope''].
      getDataMultiple env0 (instance0 [myValue, refA]) [''MyValue'', ''Nope''] =
        Inl (SchemaNotFoundError n) \<and>
      getSchemaElement (schemas (instance0 [myValue, refA])) n =
        Inl (SchemaNotFoundError n)) \<and>
   (\<exists>e'. getData env0 (instance0 [myValue, refA]) (Keys [''MyValue'', ''Nope'']) = Inl e')"
proof -
  have h1: "''Nope'' \<in> set [''MyValue'', ''Nope'']" by simp
  have h2: "getSchemaElement (schemas (instance0 [myValue, refA])) ''Nope'' =
              Inl (SchemaNotFoundError ''Nope'')"
    by (simp add: getSchemaElement_def fixture_defs)
  from getDataMultiple_unknown_name_aborts_batch [OF h1 h2, of env0] h1 h2
  show ?thesis by blast
qed

section \<open>A keyType that is \<^verbatim>\<open>Array\<close> only up to case\<close>

lemma arraySchemas_loop_wrong_keyType:
  "s \<in> set xs \<Longrightarrow> keyType s \<noteq> ''Array'' \<Longrightarrow> \<exists>e. arraySchemas_loop E this t xs = Inl e"
proof (induction xs arbitrary: t)
  case Nil
  then show ?case by simp
next
  case (Cons x xs)
  show ?case
  proof (cases "x = s")
    case True
    with Cons.prems show ?thesis by (simp add: getArrayValues_def)
  next
    case False
    with Cons.prems have "s \<in> set xs" by simp
    from Cons.IH [OF this Cons.prems(2)] show ?thesis
      by (simp split: sum.splits)
  qed
qed

lemma getDataSingle_wrong_keyType:
  assumes "getSchemaElement (schemas this) keyName = Inr s"
    and "toLowerCase (keyType s) = ''array''" and "keyType s \<noteq> ''Array''"
  shows "getDataSingle E this keyName =
     (case (case provider this of None \<Rightarrow> Inr Undefined
            | Some p \<Rightarrow> provider_getData p (address this) (key s)) of
        Inl e \<Rightarrow> Inl e
      | Inr rawData \<Rightarrow> Inl (KeyTypeNotArray (name s)))"
  using assms by (simp add: getDataSingle_def getArrayValues_def split: sum.splits option.splits)

lemma getDataMultiple_wrong_keyType:
  assumes "s \<in> set (schemas this)"
    and "toLowerCase (keyType s) = ''array''" and "keyType s \<noteq> ''Array''"
  shows "\<exists>e. getDataMultiple E this keyNames = Inl e"
proof (cases "keyHashes_of (schemas this) keyNames")
  case (Inl e)
  then show ?thesis by (simp add: getDataMultiple_def)
next
  case (Inr keyHashes)
  note kh = this
  show ?thesis
  proof (cases "provider this")
    case None
    with kh show ?thesis by (simp add: getDataMultiple_def)
  next
    case (Some p)
    show ?thesis
    proof (cases "provider_getAllData p (address this) keyHashes")
      case (Inl e)
      with kh Some show ?thesis by (simp add: getDataMultiple_def)
    next
      case (Inr allRawData)
      have "s \<in> set (filter (\<lambda>e. toLowerCase (keyType e) = ''array'') (schemas this))"
        using assms by simp
      from arraySchemas_loop_wrong_keyType [OF this assms(3)]
      obtain e where "arraySchemas_loop E this
          (foldl (\<lambda>accumulator (k, v). obj_set accumulator k v) [] allRawData)
          (filter (\<lambda>e. toLowerCase (keyType e) = ''array'') (schemas this)) = Inl e"
        by blast
      with kh Some Inr show ?thesis by (simp add: getDataMultiple_def)
    qed
  qed
qed

text \<open>
  C10. For a descriptor the instance resolves whose keyType lowercases to \<^verbatim>\<open>array\<close>
  without being the string \<^verbatim>\<open>Array\<close>, \<open>getData\<close> on its name fails. \<open>getDataSingle\<close>
  takes the array path and, once the store read has returned, the error is the one of
  the guard of \<open>getArrayValues\<close>; nothing is decoded.
\<close>

theorem getData_lowercase_array_keyType_fails:
  "getSchemaElement (schemas this) keyName = Inr s \<Longrightarrow>
   toLowerCase (keyType s) = ''array'' \<Longrightarrow> keyType s \<noteq> ''Array'' \<Longrightarrow>
     (\<exists>e. getData E this (Key keyName) = Inl e) \<and>
     (\<forall>p rawData. provider this = Some p \<longrightarrow>
        provider_getData p (address this) (key s) = Inr rawData \<longrightarrow>
          getDataSingle E this keyName = Inl (KeyTypeNotArray (name s)) \<and>
          (keyName \<noteq> [] \<longrightarrow> (\<exists>ap. getAddressAndProvider E this = Inr ap) \<longrightarrow>
             getData E this (Key keyName) = Inl (KeyTypeNotArray (name s))))"
proof -
  assume a: "getSchemaElement (schemas this) keyName = Inr s"
    "toLowerCase (keyType s) = ''array''" "keyType s \<noteq> ''Array''"
  have single: "getDataSingle E this keyName = Inl (KeyTypeNotArray (name s))"
    if "provider this = Some p" "provider_getData p (address this) (key s) = Inr rawData"
    for p rawData
    using that by (simp add: getDataSingle_wrong_keyType [OF a])
  have s_in: "s \<in> set (schemas this)" using getSchemaElement_InrD [OF a(1)] by simp
  have fails: "\<exists>e. getData E this (Key keyName) = Inl e"
  proof (cases "getAddressAndProvider E this")
    case (Inl e)
    then show ?thesis by (simp add: getData_def)
  next
    case (Inr ap)
    show ?thesis
    proof (cases "keyName = []")
      case True
      from getDataMultiple_wrong_keyType [OF s_in a(2,3)]
      obtain e where "getDataMultiple E this (map name (schemas this)) = Inl e" by blast
      with Inr True show ?thesis by (simp add: getData_def)
    next
      case False
      have "\<exists>e. getDataSingle E this keyName = Inl e"
        by (simp add: getDataSingle_wrong_keyType [OF a] split: sum.splits option.splits)
      with Inr False show ?thesis by (auto simp: getData_def)
    qed
  qed
  show ?thesis
    using fails single by (auto simp: getData_def)
qed

theorem getData_lowercase_array_keyType_fails_witness:
  "getSchemaElement (schemas (instance0 [myValue, listL_lowercase])) ''L[]'' =
     Inr listL_lowercase \<and>
   toLowerCase (keyType listL_lowercase) = ''array'' \<and>
   keyType listL_lowercase \<noteq> ''Array'' \<and>
   provider (instance0 [myValue, listL_lowercase]) = Some provider0 \<and>
   provider_getData provider0 (address (instance0 [myValue, listL_lowercase]))
     (key listL_lowercase) = Inr (Hex [2]) \<and>
   getDataSingle env0 (instance0 [myValue, listL_lowercase]) ''L[]'' =
     Inl (KeyTypeNotArray ''L[]'') \<and>
   getData env0 (instance0 [myValue, listL_lowercase]) (Key ''L[]'') =
     Inl (KeyTypeNotArray ''L[]'')"
proof -
  let ?inst = "instance0 [myValue, listL_lowercase]"
  have h1: "getSchemaElement (schemas ?inst) ''L[]'' = Inr listL_lowercase"
    by (simp add: getSchemaElement_def fixture_defs)
  have h2: "toLowerCase (keyType listL_lowercase) = ''array''"
    by (simp add: fixture_defs lower_defs)
  have h3: "keyType listL_lowercase \<noteq> ''Array''"
    by (simp add: fixture_defs)
  have h4: "provider ?inst = Some provider0"
    by (simp add: instance0_def)
  have h5: "provider_getData provider0 (address ?inst) (key listL_lowercase) = Inr (Hex [2])"
    by (simp add: fixture_defs)
  have h6: "\<exists>ap. getAddressAndProvider env0 ?inst = Inr ap"
    by (simp add: getAddressAndProvider_def fixture_defs)
  have n: "name listL_lowercase = ''L[]''"
    by (simp add: fixture_defs)
  from getData_lowercase_array_keyType_fails [OF h1 h2 h3, of env0] h4 h5 h6 n
  have "getDataSingle env0 ?inst ''L[]'' = Inl (KeyTypeNotArray ''L[]'') \<and>
        getData env0 ?inst (Key ''L[]'') = Inl (KeyTypeNotArray ''L[]'')"
    by auto
  with h1 h2 h3 h4 h5 show ?thesis by blast
qed

section \<open>A failed read of the array elements\<close>

lemma getArrayValues_read_fails:
  assumes "keyType s = ''Array''" and "provider this = Some p"
    and "map_of data (key s) = Some (k, v)"
    and "provider_getAllData p (address this) (arrayElementKeys E s data v) = Inl e"
  shows "getArrayValues E this s data = Inr []"
  using assms by (simp add: getArrayValues_def)

lemma getArrayValues_unset:
  assumes "keyType s = ''Array''" and "\<not> truthy_raw v"
  shows "getArrayValues E this s [(key s, (key s, v))] = Inr []"
  using assms by (simp add: getArrayValues_def)

text \<open>
  C6. For a descriptor whose keyType is \<^verbatim>\<open>Array\<close>, when the batched read of the
  missing element keys fails, \<open>getArrayValues\<close> returns the empty list; \<open>getDataSingle\<close>
  then returns the empty sequence; in \<open>getDataMultiple\<close> the loop step of that
  descriptor leaves \<^verbatim>\<open>tmpData\<close> as it was and goes on, and when it is the only array
  descriptor the call returns what \<open>decodeData\<close> makes of the first batched read.
  The fault is not propagated.
\<close>

theorem failed_array_read_is_an_empty_array:
  "keyType s = ''Array'' \<Longrightarrow> provider this = Some p \<Longrightarrow>
     (\<forall>data k v e.
        map_of data (key s) = Some (k, v) \<longrightarrow>
        provider_getAllData p (address this) (arrayElementKeys E s data v) = Inl e \<longrightarrow>
          getArrayValues E this s data = Inr []) \<and>
     (\<forall>keyName rawData e.
        getSchemaElement (schemas this) keyName = Inr s \<longrightarrow>
        provider_getData p (address this) (key s) = Inr rawData \<longrightarrow>
        provider_getAllData p (address this)
          (arrayElementKeys E s [(key s, (key s, rawData))] rawData) = Inl e \<longrightarrow>
          getDataSingle E this keyName = Inr (DArray [])) \<and>
     (\<forall>tmpData rest e.
        provider_getAllData p (address this)
          (arrayElementKeys E s [(key s, (key s, lookup_raw tmpData (key s)))]
             (lookup_raw tmpData (key s))) = Inl e \<longrightarrow>
          arraySchemas_loop E this tmpData (s # rest) = arraySchemas_loop E this tmpData rest) \<and>
     (\<forall>keyNames keyHashes allRawData e.
        keyHashes_of (schemas this) keyNames = Inr keyHashes \<longrightarrow>
        provider_getAllData p (address this) keyHashes = Inr allRawData \<longrightarrow>
        filter (\<lambda>e. toLowerCase (keyType e) = ''array'') (schemas this) = [s] \<longrightarrow>
        provider_getAllData p (address this)
          (arrayElementKeys E s
             [(key s, (key s, lookup_raw (foldl (\<lambda>accumulator (k, v). obj_set accumulator k v) [] allRawData) (key s)))]
             (lookup_raw (foldl (\<lambda>accumulator (k, v). obj_set accumulator k v) [] allRawData) (key s))) = Inl e \<longrightarrow>
          getDataMultiple E this keyNames =
            decodeData E (foldl (\<lambda>accumulator (k, v). obj_set accumulator k v) [] allRawData)
              (schemas this))"
proof -
  assume a: "keyType s = ''Array''" "provider this = Some p"
  have low: "toLowerCase (keyType s) = ''array''"
    using a(1) by (simp add: toLowerCase_Array)
  have 1: "getArrayValues E this s data = Inr []"
    if "map_of data (key s) = Some (k, v)"
      "provider_getAllData p (address this) (arrayElementKeys E s data v) = Inl e"
    for data k v e
    using getArrayValues_read_fails [OF a that] .
  have single: "getArrayValues E this s [(key s, (key s, v))] = Inr []"
    if "provider_getAllData p (address this)
          (arrayElementKeys E s [(key s, (key s, v))] v) = Inl e" for v e
    using that by (intro 1 [where k = "key s" and v = v and e = e]) simp_all
  have 2: "getDataSingle E this keyName = Inr (DArray [])"
    if "getSchemaElement (schemas this) keyName = Inr s"
      "provider_getData p (address this) (key s) = Inr rawData"
      "provider_getAllData p (address this)
          (arrayElementKeys E s [(key s, (key s, rawData))] rawData) = Inl e"
    for keyName rawData e
    using that(1,2) a(2) low single [OF that(3)] by (simp add: getDataSingle_def)
  have 3: "arraySchemas_loop E this tmpData (s # rest) = arraySchemas_loop E this tmpData rest"
    if "provider_getAllData p (address this)
          (arrayElementKeys E s [(key s, (key s, lookup_raw tmpData (key s)))]
             (lookup_raw tmpData (key s))) = Inl e"
    for tmpData rest e
    using single [OF that] by simp
  have 4: "getDataMultiple E this keyNames =
            decodeData E (foldl (\<lambda>accumulator (k, v). obj_set accumulator k v) [] allRawData)
              (schemas this)"
    if "keyHashes_of (schemas this) keyNames = Inr keyHashes"
      "provider_getAllData p (address this) keyHashes = Inr allRawData"
      "filter (\<lambda>e. toLowerCase (keyType e) = ''array'') (schemas this) = [s]"
      "provider_getAllData p (address this)
          (arrayElementKeys E s
             [(key s, (key s, lookup_raw (foldl (\<lambda>accumulator (k, v). obj_set accumulator k v) [] allRawData) (key s)))]
             (lookup_raw (foldl (\<lambda>accumulator (k, v). obj_set accumulator k v) [] allRawData) (key s))) = Inl e"
    for keyNames keyHashes allRawData e
    using that(1,2,3) a(2) 3 [OF that(4), of "[]"] by (simp add: getDataMultiple_def)
  from 1 2 3 4 show ?thesis by blast
qed


lemma upt_0_2: "[0 ..< 2] = [0, Suc 0]"
  by (simp add: numeral_2_eq_2)

lemma arrayElementKeys_listL:
  "arrayElementKeys env0 listL [(key listL, (key listL, Hex [2]))] (Hex [2]) =
     [''0xL[]#'', ''0xL[]#i'']"
proof -
  have "number_of (decodeKeyValue env0 ''Number'' ''uint256'' (Hex [2])) = 2"
    by (simp add: number_of_def be_nat_def lower_defs)
  then show ?thesis
    by (simp add: arrayElementKeys_def upt_0_2 fixture_defs)
qed

theorem failed_array_read_is_an_empty_array_witness:
  "keyType listL = ''Array'' \<and>
   provider (instance0 [myValue, listL]) = Some provider0 \<and>
   getSchemaElement (schemas (instance0 [myValue, listL])) ''L[]'' = Inr listL \<and>
   provider_getData provider0 (address (instance0 [myValue, listL])) (key listL) =
     Inr (Hex [2]) \<and>
   provider_getAllData provider0 (address (instance0 [myValue, listL]))
     (arrayElementKeys env0 listL [(key listL, (key listL, Hex [2]))] (Hex [2])) =
     Inl (StoreError ''no such key'') \<and>
   getArrayValues env0 (instance0 [myValue, listL]) listL
     [(key listL, (key listL, Hex [2]))] = Inr [] \<and>
   getDataSingle env0 (instance0 [myValue, listL]) ''L[]'' = Inr (DArray []) \<and>
   keyHashes_of (schemas (instance0 [myValue, listL])) [''MyValue'', ''L[]''] =
     Inr [''0xMyValue'', ''0xL[]''] \<and>
   getDataMultiple env0 (instance0 [myValue, listL]) [''MyValue'', ''L[]''] =
     Inr [(''MyValue'', DString ''hello''), (''L[]'', DArray [])]"
proof -
  let ?inst = "instance0 [myValue, listL]"
  let ?all = "[(''0xMyValue'', Hex (map byte_of_char ''hello'')), (''0xL[]'', Hex [2])]"
  let ?tmp = "foldl (\<lambda>accumulator (k, v). obj_set accumulator k v) [] ?all"
  have h1: "keyType listL = ''Array''" by (simp add: fixture_defs)
  have h2: "provider ?inst = Some provider0" by (simp add: instance0_def)
  note t = failed_array_read_is_an_empty_array [OF h1 h2, of env0]
  have h3: "getSchemaElement (schemas ?inst) ''L[]'' = Inr listL"
    by (simp add: getSchemaElement_def fixture_defs)
  have h4: "provider_getData provider0 (address ?inst) (key listL) = Inr (Hex [2])"
    by (simp add: fixture_defs)
  have h5: "provider_getAllData provider0 (address ?inst)
      (arrayElementKeys env0 listL [(key listL, (key listL, Hex [2]))] (Hex [2])) =
      Inl (StoreError ''no such key'')"
    by (simp add: arrayElementKeys_listL) (simp add: fixture_defs)
  have m: "map_of [(key listL, (key listL, Hex [2]))] (key listL) = Some (key listL, Hex [2])"
    by simp
  from t have "map_of [(key listL, (key listL, Hex [2]))] (key listL) = Some (key listL, Hex [2]) \<longrightarrow>
      provider_getAllData provider0 (address ?inst)
        (arrayElementKeys env0 listL [(key listL, (key listL, Hex [2]))] (Hex [2])) =
        Inl (StoreError ''no such key'') \<longrightarrow>
      getArrayValues env0 ?inst listL [(key listL, (key listL, Hex [2]))] = Inr []"
    by (elim conjE allE)
  with m h5 have c1: "getArrayValues env0 ?inst listL [(key listL, (key listL, Hex [2]))] = Inr []"
    by blast
  from t have "getSchemaElement (schemas ?inst) ''L[]'' = Inr listL \<longrightarrow>
      provider_getData provider0 (address ?inst) (key listL) = Inr (Hex [2]) \<longrightarrow>
      provider_getAllData provider0 (address ?inst)
        (arrayElementKeys env0 listL [(key listL, (key listL, Hex [2]))] (Hex [2])) =
        Inl (StoreError ''no such key'') \<longrightarrow>
      getDataSingle env0 ?inst ''L[]'' = Inr (DArray [])"
    by (elim conjE allE)
  with h3 h4 h5 have c2: "getDataSingle env0 ?inst ''L[]'' = Inr (DArray [])"
    by blast
  have h6: "keyHashes_of (schemas ?inst) [''MyValue'', ''L[]''] = Inr [''0xMyValue'', ''0xL[]'']"
    by (simp add: getSchemaElement_def fixture_defs)
  have h7: "provider_getAllData provider0 (address ?inst) [''0xMyValue'', ''0xL[]''] = Inr ?all"
    by (simp add: fixture_defs)
  have h8: "filter (\<lambda>e. toLowerCase (keyType e) = ''array'') (schemas ?inst) = [listL]"
    by (simp add: fixture_defs lower_defs)
  have l: "lookup_raw ?tmp (key listL) = Hex [2]"
    by (simp add: lookup_raw_def fixture_defs)
  have h9: "provider_getAllData provider0 (address ?inst)
      (arrayElementKeys env0 listL [(key listL, (key listL, lookup_raw ?tmp (key listL)))]
         (lookup_raw ?tmp (key listL))) = Inl (StoreError ''no such key'')"
    unfolding l by (rule h5)
  from t have "keyHashes_of (schemas ?inst) [''MyValue'', ''L[]''] = Inr [''0xMyValue'', ''0xL[]''] \<longrightarrow>
      provider_getAllData provider0 (address ?inst) [''0xMyValue'', ''0xL[]''] = Inr ?all \<longrightarrow>
      filter (\<lambda>e. toLowerCase (keyType e) = ''array'') (schemas ?inst) = [listL] \<longrightarrow>
      provider_getAllData provider0 (address ?inst)
        (arrayElementKeys env0 listL [(key listL, (key listL, lookup_raw ?tmp (key listL)))]
           (lookup_raw ?tmp (key listL))) = Inl (StoreError ''no such key'') \<longrightarrow>
      getDataMultiple env0 ?inst [''MyValue'', ''L[]''] = decodeData env0 ?tmp (schemas ?inst)"
    by (elim conjE allE)
  with h6 h7 h8 h9
  have "getDataMultiple env0 ?inst [''MyValue'', ''L[]''] = decodeData env0 ?tmp (schemas ?inst)"
    by blast
  also have "\<dots> = Inr [(''MyValue'', DString ''hello''), (''L[]'', DArray [])]"
    by (simp add: decodeData_def getSchemaElement_def decodeKey_def lower_defs fixture_defs)
  finally have c4: "getDataMultiple env0 ?inst [''MyValue'', ''L[]''] =
      Inr [(''MyValue'', DString ''hello''), (''L[]'', DArray [])]" .
  show ?thesis
    by (intro conjI h1 h2 h3 h4 h5 c1 c2 h6 c4)
qed

section \<open>Unset values\<close>

text \<open>
  C9. An unset raw value (\<^verbatim>\<open>null\<close> or \<^verbatim>\<open>undefined\<close>) decodes to the neutral value of the
  value type: zero for the integer types, the empty string for strings, and the empty
  sequence for an Array descriptor; decoding is a total function, it has no error
  result. And \<open>getData\<close> on the name of a descriptor whose keyType is \<^verbatim>\<open>Array\<close> and
  whose length entry the store returns as \<^verbatim>\<open>null\<close> or \<^verbatim>\<open>undefined\<close> returns the empty
  sequence.
\<close>

theorem unset_value_decodes_to_neutral:
  "decodeKey E s Null =
     (if toLowerCase (keyType s) = ''array'' then DArray []
      else neutral (valueContent s) (valueType s)) \<and>
   decodeKey E s Undefined = decodeKey E s Null \<and>
   (toLowerCase (keyType s) \<noteq> ''array'' \<longrightarrow>
      prefix ''uint'' (valueType s) \<or> prefix ''int'' (valueType s) \<longrightarrow>
        decodeKey E s Null = DNumber 0) \<and>
   (toLowerCase (keyType s) \<noteq> ''array'' \<longrightarrow> valueType s = ''string'' \<longrightarrow>
        decodeKey E s Null = DString []) \<and>
   (toLowerCase (keyType s) = ''array'' \<longrightarrow> decodeKey E s Null = DArray []) \<and>
   (\<forall>keyName.
      keyType s = ''Array'' \<longrightarrow>
      getSchemaElement (schemas this) keyName = Inr s \<longrightarrow>
      (\<exists>p. provider this = Some p \<and>
           (provider_getData p (address this) (key s) = Inr Null \<or>
            provider_getData p (address this) (key s) = Inr Undefined)) \<longrightarrow>
        getDataSingle E this keyName = Inr (DArray []) \<and>
        (keyName \<noteq> [] \<longrightarrow> (\<exists>ap. getAddressAndProvider E this = Inr ap) \<longrightarrow>
           getData E this (Key keyName) = Inr (Value (DArray []))))"
proof -
  have 1: "decodeKey E s Null =
     (if toLowerCase (keyType s) = ''array'' then DArray []
      else neutral (valueContent s) (valueType s))"
    by (simp add: decodeKey_def)
  have 2: "decodeKey E s Undefined = decodeKey E s Null"
    by (simp add: decodeKey_def)
  have 3: "decodeKey E s Null = DNumber 0"
    if "toLowerCase (keyType s) \<noteq> ''array''"
      "prefix ''uint'' (valueType s) \<or> prefix ''int'' (valueType s)"
    using that by (auto simp: 1 neutral_def)
  have s_not_int: "\<not> prefix ''uint'' ''string''" "\<not> prefix ''int'' ''string''"
    by simp_all
  have 4: "decodeKey E s Null = DString []"
    if "toLowerCase (keyType s) \<noteq> ''array''" "valueType s = ''string''"
    using that s_not_int by (simp add: 1 neutral_def)
  have 5: "decodeKey E s Null = DArray []" if "toLowerCase (keyType s) = ''array''"
    using that by (simp add: 1)
  have 6: "getDataSingle E this keyName = Inr (DArray []) \<and>
        (keyName \<noteq> [] \<longrightarrow> (\<exists>ap. getAddressAndProvider E this = Inr ap) \<longrightarrow>
           getData E this (Key keyName) = Inr (Value (DArray [])))"
    if k: "keyType s = ''Array''" "getSchemaElement (schemas this) keyName = Inr s"
      and r: "\<exists>p. provider this = Some p \<and>
           (provider_getData p (address this) (key s) = Inr Null \<or>
            provider_getData p (address this) (key s) = Inr Undefined)"
    for keyName
  proof -
    have low: "toLowerCase (keyType s) = ''array''"
      using k(1) by (simp add: toLowerCase_Array)
    from r obtain p rawData where p: "provider this = Some p"
      "provider_getData p (address this) (key s) = Inr rawData" "\<not> truthy_raw rawData"
      by auto
    have "getArrayValues E this s [(key s, (key s, rawData))] = Inr []"
      using k(1) p(3) by (simp add: getArrayValues_def)
    with k(2) p low have single: "getDataSingle E this keyName = Inr (DArray [])"
      by (simp add: getDataSingle_def)
    then show ?thesis by (auto simp: getData_def)
  qed
  from 1 2 3 4 5 6 show ?thesis by blast
qed

theorem unset_value_decodes_to_neutral_witness:
  "decodeKey env0 counter Null = DNumber 0 \<and>
   decodeKey env0 myValue Null = DString [] \<and>
   decodeKey env0 listE Null = DArray [] \<and>
   keyType listE = ''Array'' \<and>
   getSchemaElement (schemas (instance0 [myValue, listE])) ''E[]'' = Inr listE \<and>
   provider (instance0 [myValue, listE]) = Some provider0 \<and>
   provider_getData provider0 (address (instance0 [myValue, listE])) (key listE) = Inr Null \<and>
   getDataSingle env0 (instance0 [myValue, listE]) ''E[]'' = Inr (DArray []) \<and>
   getData env0 (instance0 [myValue, listE]) (Key ''E[]'') = Inr (Value (DArray []))"
proof -
  let ?inst = "instance0 [myValue, listE]"
  have n1: "toLowerCase (keyType counter) \<noteq> ''array''"
    "prefix ''uint'' (valueType counter) \<or> prefix ''int'' (valueType counter)"
    by (simp_all add: fixture_defs lower_defs)
  from unset_value_decodes_to_neutral [of env0 counter ?inst]
  have "toLowerCase (keyType counter) \<noteq> ''array'' \<longrightarrow>
      prefix ''uint'' (valueType counter) \<or> prefix ''int'' (valueType counter) \<longrightarrow>
        decodeKey env0 counter Null = DNumber 0"
    by (elim conjE)
  with n1 have c1: "decodeKey env0 counter Null = DNumber 0" by blast
  have n2: "toLowerCase (keyType myValue) \<noteq> ''array''" "valueType myValue = ''string''"
    by (simp_all add: fixture_defs lower_defs)
  from unset_value_decodes_to_neutral [of env0 myValue ?inst]
  have "toLowerCase (keyType myValue) \<noteq> ''array'' \<longrightarrow> valueType myValue = ''string'' \<longrightarrow>
        decodeKey env0 myValue Null = DString []"
    by (elim conjE)
  with n2 have c2: "decodeKey env0 myValue Null = DString []" by blast
  have n3: "toLowerCase (keyType listE) = ''array''"
    by (simp add: fixture_defs lower_defs)
  note t = unset_value_decodes_to_neutral [of env0 listE ?inst]
  from t have "toLowerCase (keyType listE) = ''array'' \<longrightarrow> decodeKey env0 listE Null = DArray []"
    by (elim conjE)
  with n3 have c3: "decodeKey env0 listE Null = DArray []" by blast
  have h1: "keyType listE = ''Array''" by (simp add: fixture_defs)
  have h2: "getSchemaElement (schemas ?inst) ''E[]'' = Inr listE"
    by (simp add: getSchemaElement_def fixture_defs)
  have h3: "provider ?inst = Some provider0" by (simp add: instance0_def)
  have h4: "provider_getData provider0 (address ?inst) (key listE) = Inr Null"
    by (simp add: fixture_defs)
  have h5: "\<exists>ap. getAddressAndProvider env0 ?inst = Inr ap"
    by (simp add: getAddressAndProvider_def fixture_defs)
  have h6: "''E[]'' \<noteq> []" by simp
  from t have "keyType listE = ''Array'' \<longrightarrow>
      getSchemaElement (schemas ?inst) ''E[]'' = Inr listE \<longrightarrow>
      (\<exists>p. provider ?inst = Some p \<and>
           (provider_getData p (address ?inst) (key listE) = Inr Null \<or>
            provider_getData p (address ?inst) (key listE) = Inr Undefined)) \<longrightarrow>
        getDataSingle env0 ?inst ''E[]'' = Inr (DArray []) \<and>
        (''E[]'' \<noteq> [] \<longrightarrow> (\<exists>ap. getAddressAndProvider env0 ?inst = Inr ap) \<longrightarrow>
           getData env0 ?inst (Key ''E[]'') = Inr (Value (DArray [])))"
    by (elim conjE allE)
  with h1 h2 h3 h4 h5 h6
  have c4: "getDataSingle env0 ?inst ''E[]'' = Inr (DArray [])"
    and c5: "getData env0 ?inst (Key ''E[]'') = Inr (Value (DArray []))"
    by blast+
  show ?thesis
    by (intro conjI c1 c2 c3 h1 h2 h3 h4 c4 c5)
qed

section \<open>The IPFS gateway\<close>

lemma GetSubstitution_no_dollar:
  "CHR ''$'' \<notin> set r \<Longrightarrow> GetSubstitution m f b r = r"
  by (induction m f b r rule: GetSubstitution.induct) auto

lemma indexOf_SomeD: "indexOf s pat = Some (f, b) \<Longrightarrow> s = f @ pat @ b"
proof (induction s arbitrary: f b)
  case Nil
  then show ?case by (simp split: if_splits)
next
  case (Cons c cs)
  show ?case
  proof (cases "prefix pat (c # cs)")
    case True
    with Cons.prems have fb: "f = []" "b = drop (length pat) (c # cs)" by auto
    from True have "c # cs = pat @ drop (length pat) (c # cs)"
      by (metis append_eq_conv_conj prefix_def)
    with fb show ?thesis by simp
  next
    case False
    with Cons.prems obtain f' where "indexOf cs pat = Some (f', b)" "f = c # f'"
      by (auto split: prod.splits)
    with Cons.IH show ?thesis by simp
  qed
qed

lemma indexOf_None_iff: "indexOf s pat = None \<longleftrightarrow> (\<forall>f b. s \<noteq> f @ pat @ b)"
proof (induction s)
  case Nil
  then show ?case by auto
next
  case (Cons c cs)
  show ?case
  proof (cases "prefix pat (c # cs)")
    case True
    then obtain r where "c # cs = [] @ pat @ r" by (auto simp: prefix_def)
    with True show ?thesis by (metis indexOf.simps(2) option.distinct(1))
  next
    case False
    have "(\<exists>f b. c # cs = f @ pat @ b) \<longleftrightarrow> (\<exists>f b. cs = f @ pat @ b)"
    proof
      assume "\<exists>f b. c # cs = f @ pat @ b"
      then obtain f b where fb: "c # cs = f @ pat @ b" by blast
      with False have "f \<noteq> []" by (auto simp: prefix_def)
      then obtain f' where "f = c # f'" using fb by (cases f) auto
      with fb show "\<exists>f b. cs = f @ pat @ b" by auto
    next
      assume "\<exists>f b. cs = f @ pat @ b"
      then obtain f b where "cs = f @ pat @ b" by blast
      then have "c # cs = (c # f) @ pat @ b" by simp
      then show "\<exists>f b. c # cs = f @ pat @ b" by blast
    qed
    with False Cons.IH show ?thesis by (auto split: prod.splits)
  qed
qed

lemma indexOf_prefix: "pat \<noteq> [] \<Longrightarrow> indexOf (pat @ rest) pat = Some ([], rest)"
  by (cases pat) auto

lemma replace_no_dollar:
  "indexOf s pat = Some (f, b) \<Longrightarrow> CHR ''$'' \<notin> set r \<Longrightarrow> replace s pat r = f @ r @ b"
  by (simp add: replace_def GetSubstitution_no_dollar)

lemma receive_DUrl:
  "url_of (patchIPFSUrlsIfApplicable this (DUrl u)) = Some x \<Longrightarrow>
   receive E this (DUrl u) =
     (case fetch E (Some x) of
        Inl e \<Rightarrow> Inl e
      | Inr response \<Rightarrow>
          if hashFunction u = KECCAK256_BYTES E
          then map_sum id Uint8Array (arrayBuffer response)
          else map_sum id Json (json_body response))"
  by (auto simp: receive_def hashFunction_of_def split: sum.splits)

text \<open>
  C8, amended. With a gateway that holds no dollar sign: a URL starting with
  \<^verbatim>\<open>ipfs://\<close> is fetched at the gateway of the instance followed by the rest of the
  URL; more generally a URL that contains \<^verbatim>\<open>ipfs://\<close> anywhere is fetched with its
  first occurrence replaced by the gateway; a URL that does not contain \<^verbatim>\<open>ipfs://\<close>
  is fetched unchanged. The gateway of an instance is \<open>convertIPFSGatewayUrl\<close> of the
  configured one, and the default one when none or an empty one was configured.
\<close>

theorem ipfs_url_is_fetched_through_the_gateway:
  "CHR ''$'' \<notin> set (ipfsGateway this) \<Longrightarrow>
     (\<forall>rest. url u = ''ipfs://'' @ rest \<longrightarrow>
        url_of (patchIPFSUrlsIfApplicable this (DUrl u)) = Some (ipfsGateway this @ rest) \<and>
        receive E this (DUrl u) =
          (case fetch E (Some (ipfsGateway this @ rest)) of
             Inl e \<Rightarrow> Inl e
           | Inr response \<Rightarrow>
               if hashFunction u = KECCAK256_BYTES E
               then map_sum id Uint8Array (arrayBuffer response)
               else map_sum id Json (json_body response))) \<and>
     (\<forall>pre post. indexOf (url u) ''ipfs://'' = Some (pre, post) \<longrightarrow>
        url u = pre @ ''ipfs://'' @ post \<and>
        url_of (patchIPFSUrlsIfApplicable this (DUrl u)) =
          Some (pre @ ipfsGateway this @ post) \<and>
        receive E this (DUrl u) =
          (case fetch E (Some (pre @ ipfsGateway this @ post)) of
             Inl e \<Rightarrow> Inl e
           | Inr response \<Rightarrow>
               if hashFunction u = KECCAK256_BYTES E
               then map_sum id Uint8Array (arrayBuffer response)
               else map_sum id Json (json_body response))) \<and>
     ((\<forall>pre post. url u \<noteq> pre @ ''ipfs://'' @ post) \<longrightarrow>
        url_of (patchIPFSUrlsIfApplicable this (DUrl u)) = Some (url u) \<and>
        receive E this (DUrl u) =
          (case fetch E (Some (url u)) of
             Inl e \<Rightarrow> Inl e
           | Inr response \<Rightarrow>
               if hashFunction u = KECCAK256_BYTES E
               then map_sum id Uint8Array (arrayBuffer response)
               else map_sum id Json (json_body response))) \<and>
     (\<forall>ss a p config.
        constructor E (Some ss) a p config = Inr this \<longrightarrow>
          ipfsGateway this =
            (case config of
               Some (Config (Some g)) \<Rightarrow>
                 if g \<noteq> [] then convertIPFSGatewayUrl E g else defaultConfig_ipfsGateway
             | _ \<Rightarrow> defaultConfig_ipfsGateway))"
proof -
  assume d: "CHR ''$'' \<notin> set (ipfsGateway this)"
  have 2: "url u = pre @ ''ipfs://'' @ post \<and>
        url_of (patchIPFSUrlsIfApplicable this (DUrl u)) =
          Some (pre @ ipfsGateway this @ post)"
    if i: "indexOf (url u) ''ipfs://'' = Some (pre, post)" for pre post
  proof -
    have eq: "url u = pre @ ''ipfs://'' @ post" using indexOf_SomeD [OF i] .
    then have ne: "url u \<noteq> []" by auto
    have "replace (url u) ''ipfs://'' (ipfsGateway this) = pre @ ipfsGateway this @ post"
      using replace_no_dollar [OF i d] .
    with i ne eq show ?thesis
      by (simp add: patchIPFSUrlsIfApplicable_def url_of_def)
  qed
  have 1: "url_of (patchIPFSUrlsIfApplicable this (DUrl u)) = Some (ipfsGateway this @ rest)"
    if "url u = ''ipfs://'' @ rest" for rest
  proof -
    have "indexOf (url u) ''ipfs://'' = Some ([], rest)"
      unfolding that by (rule indexOf_prefix) simp
    from 2 [OF this] show ?thesis by simp
  qed
  have 3: "url_of (patchIPFSUrlsIfApplicable this (DUrl u)) = Some (url u)"
    if "\<forall>pre post. url u \<noteq> pre @ ''ipfs://'' @ post"
  proof -
    from that have "indexOf (url u) ''ipfs://'' = None" by (simp add: indexOf_None_iff)
    then show ?thesis by (simp add: patchIPFSUrlsIfApplicable_def url_of_def)
  qed
  have 4: "ipfsGateway this =
            (case config of
               Some (Config (Some g)) \<Rightarrow>
                 if g \<noteq> [] then convertIPFSGatewayUrl E g else defaultConfig_ipfsGateway
             | _ \<Rightarrow> defaultConfig_ipfsGateway)"
    if "constructor E (Some ss) a p config = Inr this" for ss a p config
    using that by (auto simp: constructor_def split: sum.splits)
  from 1 2 3 4 receive_DUrl [of this u _ E] show ?thesis
    by (intro conjI allI impI) blast+
qed


theorem ipfs_url_is_fetched_through_the_gateway_witness:
  "CHR ''$'' \<notin> set (ipfsGateway (instance0 [])) \<and>
   url_of (patchIPFSUrlsIfApplicable (instance0 [])
     (DUrl \<lparr> hashFunction = ''keccak256(utf8)'', hash = [], url = ''ipfs://QmA'' \<rparr>)) =
     Some ''https://gw/ipfs/QmA'' \<and>
   receive env0 (instance0 [])
     (DUrl \<lparr> hashFunction = ''keccak256(utf8)'', hash = [], url = ''ipfs://QmA'' \<rparr>) =
     Inr (Json (JStr ''a'')) \<and>
   indexOf ''https://example.com/?from=ipfs://QmA'' ''ipfs://'' =
     Some (''https://example.com/?from='', ''QmA'') \<and>
   url_of (patchIPFSUrlsIfApplicable (instance0 [])
     (DUrl \<lparr> hashFunction = ''keccak256(utf8)'', hash = [],
            url = ''https://example.com/?from=ipfs://QmA'' \<rparr>)) =
     Some ''https://example.com/?from=https://gw/ipfs/QmA'' \<and>
   (\<forall>pre post. ''https://example.com/a'' \<noteq> pre @ ''ipfs://'' @ post) \<and>
   url_of (patchIPFSUrlsIfApplicable (instance0 [])
     (DUrl \<lparr> hashFunction = ''keccak256(utf8)'', hash = [], url = ''https://example.com/a'' \<rparr>)) =
     Some ''https://example.com/a'' \<and>
   constructor env0 (Some []) (Some ''0xabc'') (RequestProvider provider0)
     (Some (Config (Some ''https://gw/ipfs/''))) = Inr (instance0 []) \<and>
   ipfsGateway (instance0 []) = convertIPFSGatewayUrl env0 ''https://gw/ipfs/''"
proof -
  let ?inst = "instance0 []"
  let ?a = "\<lparr> hashFunction = ''keccak256(utf8)'', hash = [], url = ''ipfs://QmA'' \<rparr>"
  let ?b = "\<lparr> hashFunction = ''keccak256(utf8)'', hash = [],
            url = ''https://example.com/?from=ipfs://QmA'' \<rparr>"
  let ?c = "\<lparr> hashFunction = ''keccak256(utf8)'', hash = [], url = ''https://example.com/a'' \<rparr>"
  have h: "CHR ''$'' \<notin> set (ipfsGateway ?inst)"
    by (simp add: instance0_def)
  have g: "ipfsGateway ?inst = ''https://gw/ipfs/''"
    by (simp add: instance0_def)
  from ipfs_url_is_fetched_through_the_gateway [OF h, of ?a env0]
  have "url ?a = ''ipfs://'' @ ''QmA'' \<longrightarrow>
        url_of (patchIPFSUrlsIfApplicable ?inst (DUrl ?a)) = Some (ipfsGateway ?inst @ ''QmA'') \<and>
        receive env0 ?inst (DUrl ?a) =
          (case fetch env0 (Some (ipfsGateway ?inst @ ''QmA'')) of
             Inl e \<Rightarrow> Inl e
           | Inr response \<Rightarrow>
               if hashFunction ?a = KECCAK256_BYTES env0
               then map_sum id Uint8Array (arrayBuffer response)
               else map_sum id Json (json_body response))"
    by (elim conjE allE)
  then have a: "url_of (patchIPFSUrlsIfApplicable ?inst (DUrl ?a)) = Some ''https://gw/ipfs/QmA''"
    and a': "receive env0 ?inst (DUrl ?a) = Inr (Json (JStr ''a''))"
    by (simp_all add: g env0_def)
  have i: "indexOf ''https://example.com/?from=ipfs://QmA'' ''ipfs://'' =
     Some (''https://example.com/?from='', ''QmA'')"
    by simp
  from ipfs_url_is_fetched_through_the_gateway [OF h, of ?b env0]
  have "indexOf (url ?b) ''ipfs://'' = Some (''https://example.com/?from='', ''QmA'') \<longrightarrow>
        url ?b = ''https://example.com/?from='' @ ''ipfs://'' @ ''QmA'' \<and>
        url_of (patchIPFSUrlsIfApplicable ?inst (DUrl ?b)) =
          Some (''https://example.com/?from='' @ ipfsGateway ?inst @ ''QmA'') \<and>
        receive env0 ?inst (DUrl ?b) =
          (case fetch env0 (Some (''https://example.com/?from='' @ ipfsGateway ?inst @ ''QmA'')) of
             Inl e \<Rightarrow> Inl e
           | Inr response \<Rightarrow>
               if hashFunction ?b = KECCAK256_BYTES env0
               then map_sum id Uint8Array (arrayBuffer response)
               else map_sum id Json (json_body response))"
    by (elim conjE allE)
  with i have b: "url_of (patchIPFSUrlsIfApplicable ?inst (DUrl ?b)) =
     Some ''https://example.com/?from=https://gw/ipfs/QmA''"
    by (simp add: g)
  have n: "\<forall>pre post. ''https://example.com/a'' \<noteq> pre @ ''ipfs://'' @ post"
    by (rule iffD1 [OF indexOf_None_iff]) simp
  from ipfs_url_is_fetched_through_the_gateway [OF h, of ?c env0]
  have "(\<forall>pre post. url ?c \<noteq> pre @ ''ipfs://'' @ post) \<longrightarrow>
        url_of (patchIPFSUrlsIfApplicable ?inst (DUrl ?c)) = Some (url ?c) \<and>
        receive env0 ?inst (DUrl ?c) =
          (case fetch env0 (Some (url ?c)) of
             Inl e \<Rightarrow> Inl e
           | Inr response \<Rightarrow>
               if hashFunction ?c = KECCAK256_BYTES env0
               then map_sum id Uint8Array (arrayBuffer response)
               else map_sum id Json (json_body response))"
    by (elim conjE)
  moreover have uc: "url ?c = ''https://example.com/a''"
    by simp
  have "\<forall>pre post. url ?c \<noteq> pre @ ''ipfs://'' @ post"
    unfolding uc by (rule n)
  ultimately have "url_of (patchIPFSUrlsIfApplicable ?inst (DUrl ?c)) = Some (url ?c)"
    by blast
  then have c: "url_of (patchIPFSUrlsIfApplicable ?inst (DUrl ?c)) = Some ''https://example.com/a''"
    by simp
  have k: "constructor env0 (Some []) (Some ''0xabc'') (RequestProvider provider0)
     (Some (Config (Some ''https://gw/ipfs/''))) = Inr ?inst"
    by (simp add: constructor_def initializeProvider_def validateSchemas_def instance0_def env0_def)
  from ipfs_url_is_fetched_through_the_gateway [OF h, of ?a env0]
  have "constructor env0 (Some []) (Some ''0xabc'') (RequestProvider provider0)
          (Some (Config (Some ''https://gw/ipfs/''))) = Inr ?inst \<longrightarrow>
        ipfsGateway ?inst =
            (case Some (Config (Some ''https://gw/ipfs/'')) of
               Some (Config (Some g)) \<Rightarrow>
                 if g \<noteq> [] then convertIPFSGatewayUrl env0 g else defaultConfig_ipfsGateway
             | _ \<Rightarrow> defaultConfig_ipfsGateway)"
    by (elim conjE allE)
  with k have d: "ipfsGateway ?inst = convertIPFSGatewayUrl env0 ''https://gw/ipfs/''"
    by simp
  show ?thesis
    by (intro conjI h a a' i b n c k d)
qed

text \<open>
  C8, as the code has it. The claim that a URL not using the \<^verbatim>\<open>ipfs://\<close> scheme is
  fetched unchanged fails: an \<^verbatim>\<open>https\<close> URL that merely contains \<^verbatim>\<open>ipfs://\<close> is
  rewritten, and the fetch goes to the rewritten URL.
\<close>

theorem url_containing_ipfs_counterexample:
  "\<not> prefix ''ipfs://'' ''https://example.com/?from=ipfs://QmA'' \<and>
   url_of (patchIPFSUrlsIfApplicable (instance0 [])
     (DUrl \<lparr> hashFunction = ''keccak256(utf8)'', hash = [],
            url = ''https://example.com/?from=ipfs://QmA'' \<rparr>)) =
     Some ''https://example.com/?from=https://gw/ipfs/QmA'' \<and>
   receive env0 (instance0 [])
     (DUrl \<lparr> hashFunction = ''keccak256(utf8)'', hash = [],
            url = ''https://example.com/?from=ipfs://QmA'' \<rparr>) =
     Inl (FetchError ''https://example.com/?from=https://gw/ipfs/QmA'')"
proof -
  have p: "url_of (patchIPFSUrlsIfApplicable (instance0 [])
     (DUrl \<lparr> hashFunction = ''keccak256(utf8)'', hash = [],
            url = ''https://example.com/?from=ipfs://QmA'' \<rparr>)) =
     Some ''https://example.com/?from=https://gw/ipfs/QmA''"
    by (simp add: patchIPFSUrlsIfApplicable_def url_of_def replace_def instance0_def)
  then have "receive env0 (instance0 [])
     (DUrl \<lparr> hashFunction = ''keccak256(utf8)'', hash = [],
            url = ''https://example.com/?from=ipfs://QmA'' \<rparr>) =
     Inl (FetchError ''https://example.com/?from=https://gw/ipfs/QmA'')"
    by (simp add: receive_def env0_def)
  with p show ?thesis by simp
qed

lemma replace_dollar_in_gateway:
  "replace ''ipfs://QmA'' ''ipfs://'' ''https://gw/$$/'' = ''https://gw/$/QmA'' \<and>
   replace ''ipfs://QmA'' ''ipfs://'' ''https://gw/$&/'' = ''https://gw/ipfs:///QmA''"
  by (simp add: replace_def)

section \<open>The reduce over the external entries\<close>

lemma reducer_resolve_entry:
  "reducer E this accu (k, v) =
     (case resolve_entry E this v of
        Inl e \<Rightarrow> Promise (Inl e) []
      | Inr x \<Rightarrow> async_return (set_property accu k x))"
  by (simp add: reducer_def resolve_entry_def split: sum.splits)

lemma reduce_rejected:
  "\<exists>e' ps'. foldl (reducer E this) (Promise (Inl e) ps) es = Promise (Inl e') ps'"
proof (induction es arbitrary: e ps)
  case Nil
  then show ?case by simp
next
  case (Cons x xs)
  obtain k v where x: "x = (k, v)" by (cases x)
  show ?case
  proof (cases "resolve_entry E this v")
    case (Inl e2)
    then have "reducer E this (Promise (Inl e) ps) x = Promise (Inl e2) []"
      by (simp add: x reducer_resolve_entry)
    with Cons.IH [of e2 "[]"] show ?thesis by simp
  next
    case (Inr y)
    then have "reducer E this (Promise (Inl e) ps) x = Promise (Inl e) []"
      by (simp add: x reducer_resolve_entry)
    with Cons.IH [of e "[]"] show ?thesis by simp
  qed
qed

lemma reduce_failure_propagates:
  "(k, v) \<in> set es \<Longrightarrow> resolve_entry E this v = Inl e \<Longrightarrow>
     \<exists>e'. await (foldl (reducer E this) accu es) = Inl e'"
proof (induction es arbitrary: accu)
  case Nil
  then show ?case by simp
next
  case (Cons x xs)
  show ?case
  proof (cases "x = (k, v)")
    case True
    with Cons.prems have "reducer E this accu x = Promise (Inl e) []"
      by (simp add: reducer_resolve_entry)
    with reduce_rejected [of E this e "[]" xs] show ?thesis by auto
  next
    case False
    with Cons.prems have "(k, v) \<in> set xs" by simp
    from Cons.IH [OF this Cons.prems(2), of "reducer E this accu x"] show ?thesis by simp
  qed
qed

lemma reduce_promise_all_resolved:
  "\<forall>x \<in> set es. \<exists>y. resolve_entry E this (snd x) = Inr y \<Longrightarrow>
     \<exists>ps'. foldl (reducer E this) (Promise r ps) es = Promise r ps'"
proof (induction es arbitrary: ps)
  case Nil
  then show ?case by simp
next
  case (Cons x xs)
  obtain k v where x: "x = (k, v)" by (cases x)
  from Cons.prems obtain y where "resolve_entry E this v = Inr y" by (auto simp: x)
  then have "reducer E this (Promise r ps) x = Promise r []"
    by (simp add: x reducer_resolve_entry)
  with Cons.IH [of "[]"] Cons.prems show ?case by simp
qed

lemma reduce_first_entry:
  assumes "resolve_entry E this v = Inr y"
    and "\<forall>x \<in> set rest. \<exists>y. resolve_entry E this (snd x) = Inr y"
  shows "await (foldl (reducer E this) (Plain []) ((k, v) # rest)) = Inr [(k, y)]"
proof -
  have "reducer E this (Plain []) (k, v) = Promise (Inr [(k, y)]) []"
    using assms(1) by (simp add: reducer_resolve_entry)
  with reduce_promise_all_resolved [OF assms(2), of "Inr [(k, y)]" "[]"]
  show ?thesis by auto
qed

lemma reduce_at_most_one:
  assumes a: "await (foldl (reducer E this) (Plain []) es) = Inr ob"
  shows "length ob \<le> 1"
proof (cases es)
  case Nil
  with a show ?thesis by auto
next
  case (Cons x rest)
  obtain k v where x: "x = (k, v)" by (cases x)
  have all: "\<forall>z \<in> set es. \<exists>y. resolve_entry E this (snd z) = Inr y"
  proof (rule ccontr)
    assume "\<not> ?thesis"
    then obtain k' v' e where "(k', v') \<in> set es" "resolve_entry E this v' = Inl e"
      by (metis old.sum.exhaust prod.collapse)
    from reduce_failure_propagates [OF this, of "Plain []"] a show False by auto
  qed
  then obtain y where "resolve_entry E this v = Inr y" by (auto simp: Cons x)
  from reduce_first_entry [OF this, of rest k] all a show ?thesis by (auto simp: Cons x)
qed

section \<open>External resolution\<close>

lemmas ext_defs = fetchData_def getDataFromExternalSources_def reducer_def receive_def
  patchIPFSUrlsIfApplicable_def replace_def url_of_def hash_of_def hashFunction_of_def
  isDataAuthentic_def spread_def hashFunction_of_selector_def decoded_reference_def

text \<open>
  C5, on the code. The overlay of external resolution reaches one entry only. In the
  concrete world the references \<^verbatim>\<open>A\<close> and \<^verbatim>\<open>B\<close> are both authentic: asked for alone,
  each is replaced by its fetched content; asked for together, the first entry of the
  mapping is replaced and the second keeps its raw reference, in either order. From
  its second call on, the reducer is handed the promise of the call before it, and the
  entry it writes onto that promise is lost. The claim, which holds for any number of
  external entries, is not met by the code.
\<close>

theorem fetchData_overlays_only_the_first_reference:
  "fetchData env0 (instance0 [refA, refB]) (Keys [''A'', ''B'']) =
     Inr (Object [(''A'', DContent (Json (JStr ''a''))),
                  (''B'', decoded_reference ''keccak256(utf8)'' ''ipfs://QmB'')]) \<and>
   fetchData env0 (instance0 [refA, refB]) (Keys [''B'', ''A'']) =
     Inr (Object [(''B'', DContent (Json (JStr ''b''))),
                  (''A'', decoded_reference ''keccak256(utf8)'' ''ipfs://QmA'')]) \<and>
   fetchData env0 (instance0 [refA, refB]) (Key ''A'') =
     Inr (Value (DContent (Json (JStr ''a'')))) \<and>
   fetchData env0 (instance0 [refA, refB]) (Key ''B'') =
     Inr (Value (DContent (Json (JStr ''b''))))"
proof -
  have 1: "fetchData env0 (instance0 [refA, refB]) (Keys [''A'', ''B'']) =
     Inr (Object [(''A'', DContent (Json (JStr ''a''))),
                  (''B'', decoded_reference ''keccak256(utf8)'' ''ipfs://QmB'')])"
    by (simp add: fixture_defs read_defs lower_defs ext_defs)
  have 2: "fetchData env0 (instance0 [refA, refB]) (Keys [''B'', ''A'']) =
     Inr (Object [(''B'', DContent (Json (JStr ''b''))),
                  (''A'', decoded_reference ''keccak256(utf8)'' ''ipfs://QmA'')])"
    by (simp add: fixture_defs read_defs lower_defs ext_defs)
  have 3: "fetchData env0 (instance0 [refA, refB]) (Key ''A'') =
     Inr (Value (DContent (Json (JStr ''a''))))"
    by (simp add: fixture_defs read_defs lower_defs ext_defs)
  have 4: "fetchData env0 (instance0 [refA, refB]) (Key ''B'') =
     Inr (Value (DContent (Json (JStr ''b''))))"
    by (simp add: fixture_defs read_defs lower_defs ext_defs)
  show ?thesis by (intro conjI 1 2 3 4)
qed

text \<open>
  C7, on the code. The reference \<^verbatim>\<open>C\<close> does not match its stored hash: asked for
  alone, or as the first entry, it is \<^verbatim>\<open>null\<close> and nothing is thrown; behind another
  external entry nothing is thrown either, but the entry is not \<^verbatim>\<open>null\<close>: the caller
  gets the unauthenticated raw reference. (That a failed fetch of any entry is an error
  of the call is \<open>fetch_failure_propagates\<close>.)
\<close>

theorem fetchData_mismatch_behind_the_first_reference:
  "fetchData env0 (instance0 [refA, refC]) (Key ''C'') = Inr (Value DNull) \<and>
   fetchData env0 (instance0 [refA, refC]) (Keys [''C'', ''A'']) =
     Inr (Object [(''C'', DNull),
                  (''A'', decoded_reference ''keccak256(utf8)'' ''ipfs://QmA'')]) \<and>
   fetchData env0 (instance0 [refA, refC]) (Keys [''A'', ''C'']) =
     Inr (Object [(''A'', DContent (Json (JStr ''a''))),
                  (''C'', decoded_reference ''keccak256(utf8)'' ''ipfs://QmC'')])"
proof -
  have 1: "fetchData env0 (instance0 [refA, refC]) (Key ''C'') = Inr (Value DNull)"
    by (simp add: fixture_defs read_defs lower_defs ext_defs)
  have 2: "fetchData env0 (instance0 [refA, refC]) (Keys [''C'', ''A'']) =
     Inr (Object [(''C'', DNull),
                  (''A'', decoded_reference ''keccak256(utf8)'' ''ipfs://QmA'')])"
    by (simp add: fixture_defs read_defs lower_defs ext_defs)
  have 3: "fetchData env0 (instance0 [refA, refC]) (Keys [''A'', ''C'']) =
     Inr (Object [(''A'', DContent (Json (JStr ''a''))),
                  (''C'', decoded_reference ''keccak256(utf8)'' ''ipfs://QmC'')])"
    by (simp add: fixture_defs read_defs lower_defs ext_defs)
  show ?thesis by (intro conjI 1 2 3)
qed


lemma fetch_failure_propagates:
  assumes "getData E this (case ks of Key k \<Rightarrow> if k = [] then Key k else Keys [k] | _ \<Rightarrow> ks) =
      Inr (Object dataFromChain)"
    and "external_entries (schemas this) dataFromChain = Inr es"
    and "(k, v) \<in> set es" and "truthy v" and "receive E this v = Inl e"
  shows "\<exists>e'. fetchData E this ks = Inl e'"
proof -
  have "resolve_entry E this v = Inl e"
    using assms(4,5) by (simp add: resolve_entry_def)
  from reduce_failure_propagates [OF assms(3) this, of "Plain []"]
  obtain e' where "await (foldl (reducer E this) (Plain []) es) = Inl e'" by blast
  with assms(1,2) show ?thesis
    by (simp add: fetchData_def getDataFromExternalSources_def)
qed




section \<open>Decoding what was encoded\<close>









end
